theory Spec2Isabelle
  imports Complex_Main
begin

section \<open>JavaScript numbers\<close>

text \<open>
  A value of TypeScript's type \<open>number\<close> is a real number, one of the two infinities, or
  NaN.  The operators of this section are exact on finite values, and \<open>Math.PI\<close> is the
  real number \<open>pi\<close>: they carry the statements about real arithmetic.  The rounding of
  IEEE doubles has a section of its own below, for the loop whose outcome depends on it.
  The sign of zero is outside the model.
\<close>

datatype number = Fin real | PosInf | NegInf | NaN

fun js_add :: "number \<Rightarrow> number \<Rightarrow> number" where
  "js_add (Fin a) (Fin b) = Fin (a + b)"
| "js_add NaN _ = NaN"
| "js_add _ NaN = NaN"
| "js_add PosInf NegInf = NaN"
| "js_add NegInf PosInf = NaN"
| "js_add PosInf _ = PosInf"
| "js_add _ PosInf = PosInf"
| "js_add NegInf _ = NegInf"
| "js_add _ NegInf = NegInf"

fun js_neg :: "number \<Rightarrow> number" where
  "js_neg (Fin a) = Fin (- a)"
| "js_neg PosInf = NegInf"
| "js_neg NegInf = PosInf"
| "js_neg NaN = NaN"

definition js_sub :: "number \<Rightarrow> number \<Rightarrow> number" where
  "js_sub a b = js_add a (js_neg b)"

fun js_mul :: "number \<Rightarrow> number \<Rightarrow> number" where
  "js_mul (Fin a) (Fin b) = Fin (a * b)"
| "js_mul NaN _ = NaN"
| "js_mul _ NaN = NaN"
| "js_mul PosInf (Fin b) = (if b = 0 then NaN else if 0 < b then PosInf else NegInf)"
| "js_mul NegInf (Fin b) = (if b = 0 then NaN else if 0 < b then NegInf else PosInf)"
| "js_mul (Fin a) PosInf = (if a = 0 then NaN else if 0 < a then PosInf else NegInf)"
| "js_mul (Fin a) NegInf = (if a = 0 then NaN else if 0 < a then NegInf else PosInf)"
| "js_mul PosInf PosInf = PosInf"
| "js_mul PosInf NegInf = NegInf"
| "js_mul NegInf PosInf = NegInf"
| "js_mul NegInf NegInf = PosInf"

fun js_div :: "number \<Rightarrow> number \<Rightarrow> number" where
  "js_div (Fin a) (Fin b) =
     (if b \<noteq> 0 then Fin (a / b)
      else if a = 0 then NaN else if 0 < a then PosInf else NegInf)"
| "js_div NaN _ = NaN"
| "js_div _ NaN = NaN"
| "js_div (Fin a) PosInf = Fin 0"
| "js_div (Fin a) NegInf = Fin 0"
| "js_div PosInf (Fin b) = (if 0 \<le> b then PosInf else NegInf)"
| "js_div NegInf (Fin b) = (if 0 \<le> b then NegInf else PosInf)"
| "js_div _ _ = NaN"

text \<open>The comparison \<open>a < b\<close>: false as soon as one side is NaN.\<close>

fun js_lt :: "number \<Rightarrow> number \<Rightarrow> bool" where
  "js_lt (Fin a) (Fin b) = (a < b)"
| "js_lt NaN _ = False"
| "js_lt _ NaN = False"
| "js_lt NegInf NegInf = False"
| "js_lt NegInf _ = True"
| "js_lt PosInf _ = False"
| "js_lt (Fin a) PosInf = True"
| "js_lt (Fin a) NegInf = False"

text \<open>
  The remainder operator \<open>%\<close> truncates the quotient towards zero, so the result has the
  sign of the dividend.
\<close>

definition trunc :: "real \<Rightarrow> int" where
  "trunc r = (if 0 \<le> r then \<lfloor>r\<rfloor> else \<lceil>r\<rceil>)"

fun js_rem :: "number \<Rightarrow> number \<Rightarrow> number" where
  "js_rem (Fin a) (Fin b) = (if b = 0 then NaN else Fin (a - b * of_int (trunc (a / b))))"
| "js_rem (Fin a) PosInf = Fin a"
| "js_rem (Fin a) NegInf = Fin a"
| "js_rem _ _ = NaN"

definition Math_PI :: number where
  "Math_PI = Fin pi"

fun Math_cos :: "number \<Rightarrow> number" where
  "Math_cos (Fin a) = Fin (cos a)"
| "Math_cos _ = NaN"

fun Math_sin :: "number \<Rightarrow> number" where
  "Math_sin (Fin a) = Fin (sin a)"
| "Math_sin _ = NaN"

text \<open>\<open>Math.atan2(y, x)\<close>: the angle of the point \<open>(x, y)\<close>, in \<open>(-pi, pi]\<close>.\<close>

definition atan2_real :: "real \<Rightarrow> real \<Rightarrow> real" where
  "atan2_real b a =
     (if 0 < a then arctan (b / a)
      else if a < 0 then (if 0 \<le> b then arctan (b / a) + pi else arctan (b / a) - pi)
      else if 0 < b then pi / 2
      else if b < 0 then - (pi / 2)
      else 0)"

fun Math_atan2 :: "number \<Rightarrow> number \<Rightarrow> number" where
  "Math_atan2 (Fin b) (Fin a) = Fin (atan2_real b a)"
| "Math_atan2 NaN _ = NaN"
| "Math_atan2 _ NaN = NaN"
| "Math_atan2 (Fin b) PosInf = Fin 0"
| "Math_atan2 (Fin b) NegInf = (if 0 \<le> b then Fin pi else Fin (- pi))"
| "Math_atan2 PosInf (Fin a) = Fin (pi / 2)"
| "Math_atan2 NegInf (Fin a) = Fin (- (pi / 2))"
| "Math_atan2 PosInf PosInf = Fin (pi / 4)"
| "Math_atan2 NegInf PosInf = Fin (- (pi / 4))"
| "Math_atan2 PosInf NegInf = Fin (3 * pi / 4)"
| "Math_atan2 NegInf NegInf = Fin (- (3 * pi / 4))"


text \<open>
  A property that is \<open>undefined\<close> at run time is \<open>None\<close>; arithmetic converts it to NaN.
\<close>

fun to_number :: "number option \<Rightarrow> number" where
  "to_number None = NaN"
| "to_number (Some n) = n"

text \<open>
  A template literal \<open>`${n}`\<close> of a non-negative integer is its decimal digits.
\<close>

definition digit :: "nat \<Rightarrow> char" where
  "digit d = ''0123456789'' ! d"

function nat_to_string :: "nat \<Rightarrow> string" where
  "nat_to_string n =
     (if n < 10 then [digit n] else nat_to_string (n div 10) @ [digit (n mod 10)])"
  by pat_completeness auto
termination
  by (relation "measure id") auto

declare nat_to_string.simps [simp del]

section \<open>Coordinate\<close>

record Coordinate =
  coord_x :: number
  coord_y :: number

definition scale :: "number \<Rightarrow> Coordinate \<Rightarrow> Coordinate" where
  "scale n c = \<lparr>coord_x = js_mul (coord_x c) n, coord_y = js_mul (coord_y c) n\<rparr>"

text \<open>\<open>translate(n_x, y)\<close>: with \<open>y\<close> undefined both components move by \<open>n_x\<close>.\<close>

definition translate :: "number \<Rightarrow> number option \<Rightarrow> Coordinate \<Rightarrow> Coordinate" where
  "translate n_x y c =
     \<lparr>coord_x = js_add (coord_x c) n_x,
      coord_y = (case y of None \<Rightarrow> js_add (coord_y c) n_x | Some y' \<Rightarrow> js_add (coord_y c) y')\<rparr>"

definition expand_to :: "number \<Rightarrow> Coordinate \<Rightarrow> Coordinate" where
  "expand_to mx c = scale (js_mul (Fin 0.5) mx) (translate (Fin 1) None c)"

section \<open>The canvas, the window and the timer object\<close>

text \<open>
  The calls made on the 2D context, in the order they are made.  \<open>SetFont size\<close> stands
  for the assignment of \<open>`${size}px monospace`\<close> to \<open>ctx.font\<close>.
\<close>

datatype canvas_op =
    ClearRect number number number number
  | BeginPath
  | ClosePath
  | MoveTo number number
  | LineTo number number
  | Arc number number number number number
  | Fill
  | Stroke
  | FillText string number number
  | SetFillStyle string
  | SetLineWidth number
  | SetTextAlign string
  | SetTextBaseline string
  | SetFont number

text \<open>
  One record holds the fields of the class \<open>TimerCanvas\<close>, the attributes of its canvas
  element (\<open>width\<close>, \<open>height\<close>, \<open>clientWidth\<close>, \<open>clientHeight\<close>: unsigned integers of
  the DOM), the window's table of active timers with the next handle \<open>setInterval\<close>
  hands out, and which move listeners are attached.
\<close>

record TimerCanvas =
  width :: nat
  height :: nat
  clientWidth :: nat
  clientHeight :: nat
  ctx :: "canvas_op list"
  center :: Coordinate
  needs_full_render :: bool
  animation_timer :: "nat option"
  prev_render_ms :: number
  remaining_seconds :: number
  time_radians :: number
  drag_starting_angle :: "number option"
  drag_starting_remaining_seconds :: "number option"
  window_timers :: "nat set"
  window_next_handle :: nat
  mousemove_attached :: bool
  touchmove_attached :: bool

section \<open>Angle and time conversion\<close>

definition seconds_to_radians :: "number \<Rightarrow> number" where
  "seconds_to_radians secs = js_div (js_mul (js_div secs (Fin 60)) Math_PI) (Fin 30)"

definition radians_to_seconds :: "number \<Rightarrow> number" where
  "radians_to_seconds rads =
     js_mul (js_mul rads (js_div (Fin 60) (js_mul (Fin 2) Math_PI))) (Fin 60)"

text \<open>
  The loop of \<open>set_remaining_seconds\<close>: \<open>while (s < 0) { s += 60 * 60; }\<close>.  A run that
  never leaves the loop is the value \<open>None\<close>.  Here the addition is exact, as in all
  statements about real arithmetic; the handlers call the loop with values above -3600,
  where it adds once.  The section on IEEE doubles below embeds the same loop with the
  rounded addition; what is said of arbitrary arguments of \<open>set_remaining_seconds\<close> is
  said of that one.
\<close>

partial_function (option) add_hours :: "number \<Rightarrow> number option" where
  "add_hours s = (if js_lt s (Fin 0) then add_hours (js_add s (Fin (60 * 60))) else Some s)"

definition set_remaining_seconds :: "number \<Rightarrow> TimerCanvas \<Rightarrow> TimerCanvas option" where
  "set_remaining_seconds s this =
     (case add_hours s of
        None \<Rightarrow> None
      | Some s' \<Rightarrow>
          Some (this\<lparr>remaining_seconds := s', time_radians := seconds_to_radians s'\<rparr>))"

section \<open>The same loop on IEEE doubles\<close>

text \<open>
  The numbers of the program are IEEE doubles, and whether the loop of
  \<open>set_remaining_seconds\<close> is left, and with which value, depends on the rounding of its
  addition.  \<open>to_double\<close> rounds a real number to the nearest double, ties to the even
  significand: the unit in the last place is \<open>2\<close> to the power \<open>ulp_exponent\<close>, never
  below \<open>2 ^ - 1074\<close>, and a result of magnitude \<open>2 ^ 1024\<close> or more is an infinity.
  \<open>double_add\<close>, \<open>double_mul\<close> and \<open>double_div\<close> are the operators \<open>+\<close>, \<open>*\<close> and \<open>/\<close>
  on doubles: the exact result, rounded.  \<open>Math_PI_double\<close> is the double \<open>Math.PI\<close>.
\<close>

definition round_even :: "real \<Rightarrow> int" where
  "round_even q =
     (if q - of_int \<lfloor>q\<rfloor> < 1 / 2 then \<lfloor>q\<rfloor>
      else if 1 / 2 < q - of_int \<lfloor>q\<rfloor> then \<lfloor>q\<rfloor> + 1
      else if even \<lfloor>q\<rfloor> then \<lfloor>q\<rfloor> else \<lfloor>q\<rfloor> + 1)"

definition ulp_exponent :: "real \<Rightarrow> int" where
  "ulp_exponent x = max (- 1074) (\<lfloor>log 2 \<bar>x\<bar>\<rfloor> - 52)"

definition to_double :: "real \<Rightarrow> number" where
  "to_double x =
     (if x = 0 then Fin 0
      else
        let u = 2 powr of_int (ulp_exponent x);
            r = of_int (round_even (x / u)) * u
        in if 2 ^ 1024 \<le> \<bar>r\<bar> then (if 0 < x then PosInf else NegInf) else Fin r)"

fun double_add :: "number \<Rightarrow> number \<Rightarrow> number" where
  "double_add (Fin a) (Fin b) = to_double (a + b)"
| "double_add a b = js_add a b"

fun double_mul :: "number \<Rightarrow> number \<Rightarrow> number" where
  "double_mul (Fin a) (Fin b) = to_double (a * b)"
| "double_mul a b = js_mul a b"

fun double_div :: "number \<Rightarrow> number \<Rightarrow> number" where
  "double_div (Fin a) (Fin b) = (if b \<noteq> 0 then to_double (a / b) else js_div (Fin a) (Fin b))"
| "double_div a b = js_div a b"

definition Math_PI_double :: number where
  "Math_PI_double = Fin (884279719003555 / 2 ^ 48)"

definition seconds_to_radians_double :: "number \<Rightarrow> number" where
  "seconds_to_radians_double secs =
     double_div (double_mul (double_div secs (Fin 60)) Math_PI_double) (Fin 30)"

text \<open>
  \<open>set_remaining_seconds\<close> on doubles: the loop \<open>while (s < 0) { s += 60 * 60; }\<close> with
  the rounded addition, then the two assignments.  A run that never leaves the loop is
  the value \<open>None\<close>.
\<close>

partial_function (option) add_hours_double :: "number \<Rightarrow> number option" where
  "add_hours_double s =
     (if js_lt s (Fin 0) then add_hours_double (double_add s (Fin (60 * 60))) else Some s)"

definition set_remaining_seconds_double :: "number \<Rightarrow> TimerCanvas \<Rightarrow> TimerCanvas option" where
  "set_remaining_seconds_double s this =
     (case add_hours_double s of
        None \<Rightarrow> None
      | Some s' \<Rightarrow>
          Some (this\<lparr>remaining_seconds := s', time_radians := seconds_to_radians_double s'\<rparr>))"

section \<open>Rendering\<close>

definition num :: "nat \<Rightarrow> number" where
  "num n = Fin (real n)"

definition emit :: "canvas_op list \<Rightarrow> TimerCanvas \<Rightarrow> TimerCanvas" where
  "emit ops this = this\<lparr>ctx := ctx this @ ops\<rparr>"

definition setup_resolution :: "TimerCanvas \<Rightarrow> TimerCanvas" where
  "setup_resolution this =
     (if width this \<noteq> clientWidth this \<or> height this \<noteq> clientHeight this then
        let this = this\<lparr>width := clientWidth this\<rparr>;
            this = this\<lparr>height := clientWidth this\<rparr>;
            this = this\<lparr>center := (center this)\<lparr>coord_x := js_div (num (width this)) (Fin 2)\<rparr>\<rparr>;
            this = this\<lparr>center := (center this)\<lparr>coord_y := js_div (num (height this)) (Fin 2)\<rparr>\<rparr>;
            this = emit [ClearRect (Fin 0) (Fin 0) (num (width this)) (num (height this))] this
        in this\<lparr>needs_full_render := True\<rparr>
      else this)"

definition setup_font :: "TimerCanvas \<Rightarrow> TimerCanvas" where
  "setup_font this =
     emit [SetTextAlign ''center'', SetTextBaseline ''middle'',
           SetFont (js_mul (num (width this)) (Fin 0.05))] this"

definition nr_elements :: nat where
  "nr_elements = 12 * 5"

definition degrees_per_element :: number where
  "degrees_per_element = js_div (js_mul (Fin 2) Math_PI) (num nr_elements)"

definition text_margin :: number where
  "text_margin = Fin 0.1"

definition mark_end_margin :: number where
  "mark_end_margin = Fin 0.2"

definition mark_begin_margin :: number where
  "mark_begin_margin = Fin 0.3"

text \<open>
  A point of the unit circle moved to the ring that leaves the margin \<open>m\<close> of the
  diameter free: \<open>expand_to(diameter * (1 - m))\<close>, then \<open>translate((diameter * m) / 2)\<close>.
\<close>

definition on_ring :: "number \<Rightarrow> number \<Rightarrow> Coordinate \<Rightarrow> Coordinate" where
  "on_ring diameter m pos =
     translate (js_div (js_mul diameter m) (Fin 2)) None
       (expand_to (js_mul diameter (js_sub (Fin 1) m)) pos)"

text \<open>
  The body of the loop of \<open>render_clock\<close> for the mark \<open>i\<close> at the angle \<open>degrees\<close>.  The
  counter \<open>i\<close> is a natural number, and \<open>(i * 5) / 5\<close> divides a multiple of 5, so the
  label is the integer \<open>(i * 5) div 5\<close>.
\<close>

definition render_clock_mark :: "nat \<Rightarrow> number \<Rightarrow> TimerCanvas \<Rightarrow> TimerCanvas" where
  "render_clock_mark i degrees this =
     (let diameter = num (height this);
          pos = \<lparr>coord_x = Math_cos degrees, coord_y = Math_sin degrees\<rparr>;
          this =
            (if needs_full_render this \<and> i mod 5 = 0 then
               let text_pos = on_ring diameter text_margin pos
               in emit [FillText (nat_to_string ((i * 5) div 5))
                          (coord_x text_pos) (coord_y text_pos)] this
             else this);
          mark_begin = on_ring diameter mark_end_margin pos;
          mark_end = on_ring diameter mark_begin_margin pos
      in emit [BeginPath,
               SetLineWidth (if i mod 5 = 0 then Fin 5 else Fin 1),
               MoveTo (coord_x mark_begin) (coord_y mark_begin),
               LineTo (coord_x mark_end) (coord_y mark_end),
               Stroke,
               ClosePath] this)"

function render_clock_for :: "nat \<Rightarrow> number \<Rightarrow> TimerCanvas \<Rightarrow> TimerCanvas" where
  "render_clock_for i degrees this =
     (if i < nr_elements then
        render_clock_for (i + 1) (js_sub degrees degrees_per_element)
          (render_clock_mark i degrees this)
      else this)"
  by pat_completeness auto
termination
  by (relation "measure (\<lambda>(i, degrees, this). nr_elements - i)") auto

declare render_clock_for.simps [simp del]

definition render_clock :: "TimerCanvas \<Rightarrow> TimerCanvas" where
  "render_clock this =
     (let this = emit [SetFillStyle ''black''] this;
          this = render_clock_for 0 (js_div (js_neg Math_PI) (Fin 2)) this;
          this = emit [ClosePath] this
      in this\<lparr>needs_full_render := False\<rparr>)"

definition render_fill :: "TimerCanvas \<Rightarrow> TimerCanvas" where
  "render_fill this =
     (let margin = Fin 0.2;
          radius = js_mul (coord_y (center this)) (js_sub (Fin 1.0) margin);
          top_radians = js_mul (js_div (Fin 3) (Fin 2)) Math_PI
      in emit
           [BeginPath,
            MoveTo (coord_x (center this)) (coord_y (center this)),
            Arc (coord_x (center this)) (coord_y (center this)) radius
              (js_sub top_radians (time_radians this)) top_radians,
            SetFillStyle ''red'',
            Fill,
            ClosePath,
            BeginPath,
            MoveTo (coord_x (center this)) (coord_y (center this)),
            Arc (coord_x (center this)) (coord_y (center this))
              (js_div (num (height this)) (Fin 20)) (Fin 0) (js_mul (Fin 2) Math_PI),
            SetFillStyle ''black'',
            Fill,
            ClosePath] this)"

text \<open>A reading of \<open>Date.now()\<close>: whole milliseconds.\<close>

definition ms :: "int \<Rightarrow> number" where
  "ms t = Fin (of_int t)"

text \<open>\<open>render\<close>; \<open>now\<close> is the reading of \<open>Date.now()\<close> it stores at its end.\<close>

definition render :: "int \<Rightarrow> TimerCanvas \<Rightarrow> TimerCanvas" where
  "render now this =
     (let this = (if width this \<noteq> height this then setup_resolution this else this);
          this = emit
            [BeginPath,
             Arc (coord_x (center this)) (coord_y (center this))
               (js_mul (coord_y (center this)) (Fin 0.81)) (Fin 0) (js_mul (Fin 2) Math_PI),
             SetFillStyle ''white'',
             Fill,
             ClosePath] this;
          this = setup_font this;
          this = render_fill this;
          this = render_clock this
      in this\<lparr>prev_render_ms := ms now\<rparr>)"

section \<open>The animation loop\<close>

text \<open>
  \<open>clearTimeout(handle)\<close> removes the timer with that handle from the window's table
  (timeouts and intervals share one table); an undefined handle removes nothing.
  \<open>window.setInterval\<close> enters a timer under the next free handle and returns it.
\<close>

definition clearTimeout :: "nat option \<Rightarrow> TimerCanvas \<Rightarrow> TimerCanvas" where
  "clearTimeout handle this =
     (case handle of
        None \<Rightarrow> this
      | Some h \<Rightarrow> this\<lparr>window_timers := window_timers this - {h}\<rparr>)"

definition setInterval :: "TimerCanvas \<Rightarrow> nat \<times> TimerCanvas" where
  "setInterval this =
     (let h = window_next_handle this
      in (h, this\<lparr>window_timers := insert h (window_timers this),
                   window_next_handle := h + 1\<rparr>))"

definition animate_clock :: "TimerCanvas \<Rightarrow> TimerCanvas" where
  "animate_clock this =
     (let this = clearTimeout (animation_timer this) this;
          (h, this) = setInterval this
      in this\<lparr>animation_timer := Some h\<rparr>)"

text \<open>
  The two source files differ in the callback that \<open>animate_clock\<close> schedules:
  \<open>src/unnamed/part_000\<close> renders once more after it has set the remaining time to zero,
  \<open>src/src/timer.ts\<close> does not.
\<close>

datatype source_file = Timer_ts | Part_000

text \<open>
  The callback of \<open>src/src/timer.ts\<close>.  \<open>now\<close> is its own reading of \<open>Date.now()\<close>,
  \<open>t_render\<close> the one \<open>render\<close> makes.
\<close>

definition interval_callback :: "int \<Rightarrow> int \<Rightarrow> TimerCanvas \<Rightarrow> TimerCanvas option" where
  "interval_callback now t_render this =
     (let secs_since_last_render = js_div (js_sub (ms now) (prev_render_ms this)) (Fin 1000);
          this = render t_render this
      in if js_lt (js_sub (remaining_seconds this) secs_since_last_render) (Fin 0) then
           set_remaining_seconds (Fin 0) (clearTimeout (animation_timer this) this)
         else
           set_remaining_seconds (js_sub (remaining_seconds this) secs_since_last_render) this)"

text \<open>The callback of \<open>src/unnamed/part_000\<close>; \<open>t_render2\<close> is read by its second \<open>render\<close>.\<close>

definition interval_callback_part_000 ::
  "int \<Rightarrow> int \<Rightarrow> int \<Rightarrow> TimerCanvas \<Rightarrow> TimerCanvas option" where
  "interval_callback_part_000 now t_render t_render2 this =
     (let secs_since_last_render = js_div (js_sub (ms now) (prev_render_ms this)) (Fin 1000);
          this = render t_render this
      in if js_lt (js_sub (remaining_seconds this) secs_since_last_render) (Fin 0) then
           map_option (render t_render2)
             (set_remaining_seconds (Fin 0) (clearTimeout (animation_timer this) this))
         else
           set_remaining_seconds (js_sub (remaining_seconds this) secs_since_last_render) this)"

section \<open>The drag gesture\<close>

text \<open>
  What \<open>mousemove_handler\<close> reads of its event: the page position, \<open>None\<close> where the
  property is undefined at run time, and the corner of the target's bounding rectangle.
\<close>

record pointer_event =
  pageX :: "number option"
  pageY :: "number option"
  rect_left :: number
  rect_top :: number

text \<open>The first part of \<open>mousemove_handler\<close>: the angle of the pointer.\<close>

definition pointer_angle :: "pointer_event \<Rightarrow> TimerCanvas \<Rightarrow> number" where
  "pointer_angle event this =
     (let pos = \<lparr>coord_x = js_sub (to_number (pageX event)) (rect_left event),
                 coord_y = js_sub (to_number (pageY event)) (rect_top event)\<rparr>;
          pos = translate (js_neg (coord_x (center this))) (Some (js_neg (coord_y (center this)))) pos;
          angle = Math_atan2 (coord_y pos) (coord_x pos);
          angle = (if js_lt angle (Fin 0) then js_add angle (js_mul (Fin 2) Math_PI) else angle);
          angle = js_add angle (js_mul (js_div (Fin 1) (Fin 2)) Math_PI)
      in js_rem angle (js_mul (Fin 2) Math_PI))"

definition mousemove_handler :: "pointer_event \<Rightarrow> int \<Rightarrow> TimerCanvas \<Rightarrow> TimerCanvas option" where
  "mousemove_handler event t_render this =
     (let angle = pointer_angle event this;
          moved =
            (case (drag_starting_angle this, drag_starting_remaining_seconds this) of
               (Some starting_angle, Some starting_remaining_seconds) \<Rightarrow>
                 (let diff = js_sub starting_angle angle;
                      seconds_diff = radians_to_seconds diff
                  in set_remaining_seconds (js_add starting_remaining_seconds seconds_diff) this)
             | _ \<Rightarrow>
                 Some (this\<lparr>drag_starting_angle := Some angle,
                            drag_starting_remaining_seconds := Some (remaining_seconds this)\<rparr>))
      in map_option (\<lambda>this. animate_clock (render t_render this)) moved)"

text \<open>
  The listeners that \<open>handlers\<close> installs, as the events the element receives.  A move
  handler runs only while it is attached.  \<open>touchmove_handler\<close> passes \<open>e.touches[0]\<close>
  on; with no touch that is undefined, reading its \<open>target\<close> throws a TypeError before
  any assignment, and the state stays as it was.  A timer fires only while its handle is
  in the window's table.
\<close>

datatype dom_event =
    Mousedown
  | Mousemove pointer_event int
  | Mouseup
  | Touchstart
  | Touchmove "pointer_event list" int
  | Touchend
  | Resize nat nat
  | Interval nat int int int

fun dispatch :: "source_file \<Rightarrow> dom_event \<Rightarrow> TimerCanvas \<Rightarrow> TimerCanvas option" where
  "dispatch src Mousedown this = Some (this\<lparr>mousemove_attached := True\<rparr>)"
| "dispatch src (Mousemove event t_render) this =
     (if mousemove_attached this then mousemove_handler event t_render this else Some this)"
| "dispatch src Mouseup this =
     Some (this\<lparr>mousemove_attached := False, drag_starting_angle := None,
                drag_starting_remaining_seconds := None\<rparr>)"
| "dispatch src Touchstart this = Some (this\<lparr>touchmove_attached := True\<rparr>)"
| "dispatch src (Touchmove touches t_render) this =
     (if touchmove_attached this then
        (case touches of
           [] \<Rightarrow> Some this
         | event # _ \<Rightarrow> mousemove_handler event t_render this)
      else Some this)"
| "dispatch src Touchend this =
     Some (this\<lparr>touchmove_attached := False, drag_starting_angle := None,
                drag_starting_remaining_seconds := None\<rparr>)"
| "dispatch src (Resize client_width client_height) this =
     Some (setup_resolution (this\<lparr>clientWidth := client_width, clientHeight := client_height\<rparr>))"
| "dispatch src (Interval h now t_render t_render2) this =
     (if h \<in> window_timers this then
        (case src of
           Timer_ts \<Rightarrow> interval_callback now t_render this
         | Part_000 \<Rightarrow> interval_callback_part_000 now t_render t_render2 this)
      else Some this)"

fun run :: "source_file \<Rightarrow> dom_event list \<Rightarrow> TimerCanvas \<Rightarrow> TimerCanvas option" where
  "run src [] this = Some this"
| "run src (e # es) this =
     (case dispatch src e this of None \<Rightarrow> None | Some this' \<Rightarrow> run src es this')"

section \<open>Construction and set-up\<close>

text \<open>
  \<open>setup\<close> (named \<open>setup'\<close> here): the first render and the start of the animation (\<open>handlers\<close> only installs
  the listeners modelled by \<open>dispatch\<close>, none of the move listeners attached yet).
\<close>

definition setup' :: "int \<Rightarrow> TimerCanvas \<Rightarrow> TimerCanvas" where
  "setup' t_render this = animate_clock (render t_render this)"

datatype error = Error string

text \<open>
  The assignments of the constructor.  The canvas element comes with its attributes
  \<open>w\<close>, \<open>h\<close>, \<open>cw\<close>, \<open>ch\<close>; \<open>context\<close> tells whether \<open>getContext("2d")\<close> gave a context;
  \<open>now\<close> is the reading of \<open>Date.now()\<close>.
\<close>

definition new_fields :: "int \<Rightarrow> nat \<Rightarrow> nat \<Rightarrow> nat \<Rightarrow> nat \<Rightarrow> TimerCanvas" where
  "new_fields now w h cw ch =
     \<lparr>width = w, height = h, clientWidth = cw, clientHeight = ch,
      ctx = [],
      center = \<lparr>coord_x = Fin 0, coord_y = Fin 0\<rparr>,
      needs_full_render = True,
      animation_timer = None,
      prev_render_ms = ms now,
      remaining_seconds = js_mul (Fin 2) (Fin 60),
      time_radians = seconds_to_radians (js_mul (Fin 2) (Fin 60)),
      drag_starting_angle = None,
      drag_starting_remaining_seconds = None,
      window_timers = {},
      window_next_handle = 1,
      mousemove_attached = False,
      touchmove_attached = False\<rparr>"

text \<open>
  In \<open>src/src/timer.ts\<close> the constructor ends after the assignments and
  \<open>connectedCallback\<close> runs \<open>setup\<close> later; in \<open>src/unnamed/part_000\<close> the constructor
  itself ends with \<open>this.setup()\<close>.
\<close>

definition constructor ::
  "source_file \<Rightarrow> bool \<Rightarrow> int \<Rightarrow> int \<Rightarrow> nat \<Rightarrow> nat \<Rightarrow> nat \<Rightarrow> nat \<Rightarrow> error + TimerCanvas" where
  "constructor src context now t_render w h cw ch =
     (if \<not> context then Inl (Error ''could not get 2d context for canvas'')
      else
        (case src of
           Timer_ts \<Rightarrow> Inr (new_fields now w h cw ch)
         | Part_000 \<Rightarrow> Inr (setup' t_render (new_fields now w h cw ch))))"

definition connectedCallback :: "int \<Rightarrow> TimerCanvas \<Rightarrow> TimerCanvas" where
  "connectedCallback t_render this = setup' t_render this"

section \<open>Closed forms used in the statements\<close>

text \<open>
  What the loop of \<open>set_remaining_seconds\<close> reaches from a finite \<open>s\<close>: a negative \<open>s\<close>
  is moved into \<open>[0, 3600)\<close> by whole hours, any other \<open>s\<close> is kept.
\<close>

definition normalized :: "real \<Rightarrow> real" where
  "normalized s = (if s < 0 then s - 3600 * of_int \<lfloor>s / 3600\<rfloor> else s)"

text \<open>The formula of the specification, \<open>((s % 3600) + 3600) % 3600\<close>, in its own words.\<close>

definition spec_normalize :: "number \<Rightarrow> number" where
  "spec_normalize s = js_rem (js_add (js_rem s (Fin 3600)) (Fin 3600)) (Fin 3600)"

text \<open>
  The calls \<open>render_clock\<close> makes for the mark \<open>i\<close> at the angle \<open>degrees\<close>, on a canvas of
  height \<open>h\<close>, with the labels drawn when \<open>full\<close> holds; the angle of the mark \<open>i\<close>; and
  the calls of the whole pass.
\<close>

definition mark_ops :: "bool \<Rightarrow> nat \<Rightarrow> nat \<Rightarrow> number \<Rightarrow> canvas_op list" where
  "mark_ops full h i degrees =
     (let pos = \<lparr>coord_x = Math_cos degrees, coord_y = Math_sin degrees\<rparr>;
          text_pos = on_ring (num h) text_margin pos;
          mark_begin = on_ring (num h) mark_end_margin pos;
          mark_end = on_ring (num h) mark_begin_margin pos
      in (if full \<and> i mod 5 = 0
          then [FillText (nat_to_string i) (coord_x text_pos) (coord_y text_pos)]
          else [])
         @ [BeginPath,
            SetLineWidth (if i mod 5 = 0 then Fin 5 else Fin 1),
            MoveTo (coord_x mark_begin) (coord_y mark_begin),
            LineTo (coord_x mark_end) (coord_y mark_end),
            Stroke,
            ClosePath])"

definition mark_angle :: "nat \<Rightarrow> real" where
  "mark_angle i = - pi / 2 - real i * (2 * pi / 60)"

definition clock_ops :: "bool \<Rightarrow> nat \<Rightarrow> canvas_op list" where
  "clock_ops full h =
     SetFillStyle ''black''
     # concat (map (\<lambda>i. mark_ops full h i (Fin (mark_angle i))) [0..<60])
     @ [ClosePath]"


text \<open>
  The state \<open>render\<close> draws from, after its check of the resolution, and the calls it
  makes from there.
\<close>

definition resized :: "TimerCanvas \<Rightarrow> TimerCanvas" where
  "resized this = (if width this \<noteq> height this then setup_resolution this else this)"

definition fill_ops :: "TimerCanvas \<Rightarrow> canvas_op list" where
  "fill_ops this =
     [BeginPath,
      MoveTo (coord_x (center this)) (coord_y (center this)),
      Arc (coord_x (center this)) (coord_y (center this))
        (js_mul (coord_y (center this)) (js_sub (Fin 1.0) (Fin 0.2)))
        (js_sub (js_mul (js_div (Fin 3) (Fin 2)) Math_PI) (time_radians this))
        (js_mul (js_div (Fin 3) (Fin 2)) Math_PI),
      SetFillStyle ''red'',
      Fill,
      ClosePath,
      BeginPath,
      MoveTo (coord_x (center this)) (coord_y (center this)),
      Arc (coord_x (center this)) (coord_y (center this))
        (js_div (num (height this)) (Fin 20)) (Fin 0) (js_mul (Fin 2) Math_PI),
      SetFillStyle ''black'',
      Fill,
      ClosePath]"

definition frame_ops :: "TimerCanvas \<Rightarrow> canvas_op list" where
  "frame_ops this =
     [BeginPath,
      Arc (coord_x (center this)) (coord_y (center this))
        (js_mul (coord_y (center this)) (Fin 0.81)) (Fin 0) (js_mul (Fin 2) Math_PI),
      SetFillStyle ''white'',
      Fill,
      ClosePath,
      SetTextAlign ''center'',
      SetTextBaseline ''middle'',
      SetFont (js_mul (num (width this)) (Fin 0.05))]
     @ fill_ops this
     @ clock_ops (needs_full_render this) (height this)"

text \<open>What a list of calls draws as labels, which line widths it sets, what it clears.\<close>

fun label_of :: "canvas_op \<Rightarrow> string list" where
  "label_of (FillText s _ _) = [s]"
| "label_of _ = []"

definition labels :: "canvas_op list \<Rightarrow> string list" where
  "labels ops = concat (map label_of ops)"

fun line_width_of :: "canvas_op \<Rightarrow> number list" where
  "line_width_of (SetLineWidth n) = [n]"
| "line_width_of _ = []"

definition line_widths :: "canvas_op list \<Rightarrow> number list" where
  "line_widths ops = concat (map line_width_of ops)"

fun clear_of :: "canvas_op \<Rightarrow> canvas_op list" where
  "clear_of (ClearRect a b c d) = [ClearRect a b c d]"
| "clear_of _ = []"

definition clears :: "canvas_op list \<Rightarrow> canvas_op list" where
  "clears ops = concat (map clear_of ops)"

text \<open>
  The test under which a render pass changes the resolution: \<open>render\<close> finds the width
  and the height different, and \<open>setup_resolution\<close> finds the canvas and its client box
  of different size.  And the twelve labels of a full clock face.
\<close>

definition resolution_differs :: "TimerCanvas \<Rightarrow> bool" where
  "resolution_differs this =
     (width this \<noteq> height this
      \<and> (width this \<noteq> clientWidth this \<or> height this \<noteq> clientHeight this))"

definition hour_labels :: "string list" where
  "hour_labels = map nat_to_string (filter (\<lambda>i. i mod 5 = 0) [0..<60])"

text \<open>
  Invariants of the timer object.  \<open>returning\<close>: no stored number is infinite, so that the
  loop of \<open>set_remaining_seconds\<close> is left on every later call.  \<open>one_timer\<close>: every
  active timer of the window is the one whose handle \<open>animation_timer\<close> holds.
\<close>

fun not_infinite :: "number \<Rightarrow> bool" where
  "not_infinite PosInf = False"
| "not_infinite NegInf = False"
| "not_infinite _ = True"

fun not_infinite_opt :: "number option \<Rightarrow> bool" where
  "not_infinite_opt None = True"
| "not_infinite_opt (Some n) = not_infinite n"

definition returning :: "TimerCanvas \<Rightarrow> bool" where
  "returning this =
     (not_infinite (remaining_seconds this)
      \<and> not_infinite (prev_render_ms this)
      \<and> not_infinite_opt (drag_starting_angle this)
      \<and> not_infinite_opt (drag_starting_remaining_seconds this))"

definition one_timer :: "TimerCanvas \<Rightarrow> bool" where
  "one_timer this = (window_timers this \<subseteq> set_option (animation_timer this))"

definition steady :: "TimerCanvas \<Rightarrow> bool" where
  "steady this = (returning this \<and> one_timer this)"

text \<open>
  The seconds since the last render, as the interval callback computes them from its
  reading \<open>now\<close> of the clock, and its test that the remaining time is used up.
\<close>

definition secs_since :: "int \<Rightarrow> TimerCanvas \<Rightarrow> number" where
  "secs_since now this = js_div (js_sub (ms now) (prev_render_ms this)) (Fin 1000)"

definition expired :: "int \<Rightarrow> TimerCanvas \<Rightarrow> bool" where
  "expired now this = js_lt (js_sub (remaining_seconds this) (secs_since now this)) (Fin 0)"

text \<open>
  The invariant of the remaining time.  \<open>sound\<close>: the remaining time is a real number that
  is not negative, the angle is the one of the remaining time, and the numbers a handler
  reads from the state are finite.  An event is well formed when its move carries a
  position: finite page coordinates and a finite bounding rectangle.
\<close>

fun nonneg :: "number \<Rightarrow> bool" where
  "nonneg (Fin r) = (0 \<le> r)"
| "nonneg _ = False"

fun is_finite :: "number \<Rightarrow> bool" where
  "is_finite (Fin r) = True"
| "is_finite _ = False"

fun is_finite_opt :: "number option \<Rightarrow> bool" where
  "is_finite_opt None = True"
| "is_finite_opt (Some n) = is_finite n"

fun is_position :: "number option \<Rightarrow> bool" where
  "is_position None = False"
| "is_position (Some n) = is_finite n"

definition positioned :: "pointer_event \<Rightarrow> bool" where
  "positioned event =
     (is_position (pageX event) \<and> is_position (pageY event)
      \<and> is_finite (rect_left event) \<and> is_finite (rect_top event))"

fun well_formed :: "dom_event \<Rightarrow> bool" where
  "well_formed (Mousemove event t) = positioned event"
| "well_formed (Touchmove touches t) = list_all positioned touches"
| "well_formed _ = True"

definition in_sync :: "TimerCanvas \<Rightarrow> bool" where
  "in_sync this = (time_radians this = seconds_to_radians (remaining_seconds this))"

definition sound :: "TimerCanvas \<Rightarrow> bool" where
  "sound this =
     (nonneg (remaining_seconds this)
      \<and> in_sync this
      \<and> is_finite (prev_render_ms this)
      \<and> is_finite (coord_x (center this))
      \<and> is_finite (coord_y (center this))
      \<and> is_finite_opt (drag_starting_angle this)
      \<and> is_finite_opt (drag_starting_remaining_seconds this))"

text \<open>A gesture with two moves, timer callbacks and a resize, for the examples.\<close>

definition drag_and_tick :: "dom_event list" where
  "drag_and_tick =
     [Mousedown,
      Mousemove \<lparr>pageX = Some (Fin 200), pageY = Some (Fin 100),
                 rect_left = Fin 8, rect_top = Fin 8\<rparr> 150,
      Mousemove \<lparr>pageX = Some (Fin 100), pageY = Some (Fin 220),
                 rect_left = Fin 8, rect_top = Fin 8\<rparr> 180,
      Interval 3 380 380 381,
      Mouseup,
      Resize 400 400,
      Interval 3 580 580 581]"


definition second_move :: pointer_event where
  "second_move = \<lparr>pageX = Some (Fin 1), pageY = Some (Fin 0),
                   rect_left = Fin 0, rect_top = Fin 0\<rparr>"

definition no_position :: pointer_event where
  "no_position = \<lparr>pageX = None, pageY = None, rect_left = Fin 8, rect_top = Fin 8\<rparr>"

definition mounted :: TimerCanvas where
  "mounted = setup' 0 (new_fields 0 300 300 300 300)"

section \<open>Arithmetic on finite numbers\<close>

lemma js_sub_Fin [simp]: "js_sub (Fin a) (Fin b) = Fin (a - b)"
  by (simp add: js_sub_def)


lemma radians_to_seconds_Fin: "radians_to_seconds (Fin r) = Fin (r * (60 / (2 * pi)) * 60)"
  by (simp add: radians_to_seconds_def Math_PI_def)

lemma hour_bounds:
  "0 \<le> s - 3600 * of_int \<lfloor>s / 3600\<rfloor> \<and> s - 3600 * of_int \<lfloor>s / 3600\<rfloor> < 3600"
proof -
  have lower: "of_int \<lfloor>s / 3600\<rfloor> \<le> s / 3600"
    by linarith
  have upper: "s / 3600 < of_int \<lfloor>s / 3600\<rfloor> + 1"
    by linarith
  show ?thesis
    using lower upper by (simp add: field_simps)
qed

section \<open>The loop of \<open>set_remaining_seconds\<close>\<close>

lemma add_hours_nonneg: "0 \<le> s \<Longrightarrow> add_hours (Fin s) = Some (Fin s)"
  by (subst add_hours.simps) simp

lemma add_hours_step: "s < 0 \<Longrightarrow> add_hours (Fin s) = add_hours (Fin (s + 3600))"
  by (subst add_hours.simps) simp

lemma add_hours_steps:
  "s + 3600 * real n < 3600 \<Longrightarrow> add_hours (Fin s) = add_hours (Fin (s + 3600 * real n))"
proof (induction n arbitrary: s)
  case 0
  then show ?case by simp
next
  case (Suc n)
  have neg: "s < 0"
    using Suc.prems by (simp add: algebra_simps)
  have "add_hours (Fin s) = add_hours (Fin (s + 3600))"
    using neg by (rule add_hours_step)
  also have "\<dots> = add_hours (Fin (s + 3600 + 3600 * real n))"
    using Suc.prems by (intro Suc.IH) (simp add: algebra_simps)
  finally show ?case
    by (simp add: algebra_simps)
qed

lemma add_hours_Fin: "add_hours (Fin s) = Some (Fin (normalized s))"
proof (cases "s < 0")
  case False
  then show ?thesis
    by (simp add: normalized_def add_hours_nonneg)
next
  case True
  define n where "n = nat (- \<lfloor>s / 3600\<rfloor>)"
  define w where "w = s - 3600 * of_int \<lfloor>s / 3600\<rfloor>"
  have "\<lfloor>s / 3600\<rfloor> < 0"
    using True by (simp add: floor_less_iff)
  then have "real n = - of_int \<lfloor>s / 3600\<rfloor>"
    by (simp add: n_def)
  then have w: "s + 3600 * real n = w"
    by (simp add: w_def)
  have range: "0 \<le> w \<and> w < 3600"
    unfolding w_def by (rule hour_bounds)
  have "add_hours (Fin s) = add_hours (Fin (s + 3600 * real n))"
    using range by (intro add_hours_steps) (simp add: w)
  also have "\<dots> = Some (Fin w)"
    using range by (simp add: w add_hours_nonneg)
  finally show ?thesis
    using True by (simp add: normalized_def w_def)
qed

lemma add_hours_NaN: "add_hours NaN = Some NaN"
  by (subst add_hours.simps) simp

lemma set_remaining_seconds_Fin:
  "set_remaining_seconds (Fin s) this =
     Some (this\<lparr>remaining_seconds := Fin (normalized s),
                time_radians := seconds_to_radians (Fin (normalized s))\<rparr>)"
  by (simp add: set_remaining_seconds_def add_hours_Fin)

lemma normalized_nonneg: "0 \<le> normalized s"
  using hour_bounds [of s] by (simp add: normalized_def)

lemma normalized_congruent: "\<exists>k::nat. normalized s = s + 3600 * real k"
proof (cases "s < 0")
  case False
  then have "normalized s = s + 3600 * real 0"
    by (simp add: normalized_def)
  then show ?thesis ..
next
  case True
  then have "\<lfloor>s / 3600\<rfloor> < 0"
    by (simp add: floor_less_iff)
  then have "real (nat (- \<lfloor>s / 3600\<rfloor>)) = - of_int \<lfloor>s / 3600\<rfloor>"
    by simp
  then have "normalized s = s + 3600 * real (nat (- \<lfloor>s / 3600\<rfloor>))"
    using True by (simp add: normalized_def)
  then show ?thesis ..
qed

lemma spec_normalize_small:
  assumes "0 \<le> s" and "s < 3600"
  shows "spec_normalize (Fin s) = Fin s"
proof -
  have t0: "trunc (s / 3600) = 0"
    using assms by (simp add: trunc_def floor_eq_iff)
  have t1: "trunc ((s + 3600) / 3600) = 1"
    using assms by (simp add: trunc_def floor_eq_iff)
  show ?thesis
    by (simp add: spec_normalize_def t0 t1)
qed

lemma spec_normalize_neg:
  assumes "s < 0"
  shows "spec_normalize (Fin s) = Fin (s - 3600 * of_int \<lfloor>s / 3600\<rfloor>)"
proof (cases "of_int \<lfloor>s / 3600\<rfloor> = s / 3600")
  case True
  then have c: "\<lceil>s / 3600\<rceil> = \<lfloor>s / 3600\<rfloor>"
    by (metis ceiling_of_int)
  have t0: "trunc (s / 3600) = \<lfloor>s / 3600\<rfloor>"
    using assms by (simp add: trunc_def c)
  have e: "s - 3600 * of_int \<lfloor>s / 3600\<rfloor> = 0"
    using True by simp
  have t1: "trunc (3600 / 3600 :: real) = 1"
    by (simp add: trunc_def)
  show ?thesis
    using t1 by (simp add: spec_normalize_def t0 e)
next
  case False
  then have c: "\<lceil>s / 3600\<rceil> = \<lfloor>s / 3600\<rfloor> + 1"
    by (simp add: ceiling_altdef)
  have t0: "trunc (s / 3600) = \<lfloor>s / 3600\<rfloor> + 1"
    using assms by (simp add: trunc_def c)
  define w where "w = s - 3600 * of_int \<lfloor>s / 3600\<rfloor>"
  have range: "0 \<le> w \<and> w < 3600"
    unfolding w_def by (rule hour_bounds)
  have r1: "s - 3600 * of_int (trunc (s / 3600)) + 3600 = w"
    by (simp add: t0 w_def)
  have t1: "trunc (w / 3600) = 0"
    using range by (simp add: trunc_def floor_eq_iff)
  have "spec_normalize (Fin s) = js_rem (Fin w) (Fin 3600)"
    unfolding spec_normalize_def using r1 by simp
  also have "\<dots> = Fin w"
    by (simp add: t1)
  finally show ?thesis
    by (simp add: w_def)
qed

lemma normalized_below_hour:
  "s < 3600 \<Longrightarrow> normalized s < 3600 \<and> spec_normalize (Fin s) = Fin (normalized s)"
  using hour_bounds [of s] by (simp add: normalized_def spec_normalize_small spec_normalize_neg)

lemma normalized_minus_10: "normalized (- 10) = 3590"
proof -
  have "\<lfloor>- 10 / 3600 :: real\<rfloor> = - 1"
    by (simp add: floor_eq_iff)
  then show ?thesis
    by (simp add: normalized_def)
qed

lemma normalized_minus_3700: "normalized (- 3700) = 3500"
proof -
  have "\<lfloor>- 3700 / 3600 :: real\<rfloor> = - 2"
    by (simp add: floor_eq_iff)
  then show ?thesis
    by (simp add: normalized_def)
qed


section \<open>The loop on doubles\<close>

lemma round_even_close: "\<bar>of_int (round_even q) - q\<bar> \<le> 1 / 2"
proof -
  have "of_int \<lfloor>q\<rfloor> \<le> q" and "q < of_int \<lfloor>q\<rfloor> + 1"
    by linarith+
  then show ?thesis
    by (auto simp: round_even_def)
qed

lemma round_even_of_int: "round_even (of_int m) = m"
  by (simp add: round_even_def)

lemma round_even_le: "q \<le> of_int N \<Longrightarrow> round_even q \<le> N"
proof -
  assume le: "q \<le> of_int N"
  show ?thesis
  proof (cases "q = of_int N")
    case True
    then show ?thesis
      by (simp add: round_even_of_int)
  next
    case False
    then have "q < of_int N"
      using le by simp
    then have "\<lfloor>q\<rfloor> < N"
      by (simp add: floor_less_iff)
    then show ?thesis
      by (simp add: round_even_def)
  qed
qed

lemma round_even_ge: "of_int N \<le> q \<Longrightarrow> N \<le> round_even q"
proof -
  assume "of_int N \<le> q"
  then have "N \<le> \<lfloor>q\<rfloor>"
    by (simp add: le_floor_iff)
  then show ?thesis
    by (simp add: round_even_def)
qed

lemma round_error:
  assumes "0 < u"
  shows "\<bar>of_int (round_even (x / u)) * u - x\<bar> \<le> u / 2"
proof -
  have "of_int (round_even (x / u)) * u - x = (of_int (round_even (x / u)) - x / u) * u"
    using assms by (simp add: field_simps)
  then have "\<bar>of_int (round_even (x / u)) * u - x\<bar> = \<bar>of_int (round_even (x / u)) - x / u\<bar> * u"
    using assms by (simp add: abs_mult)
  also have "\<dots> \<le> 1 / 2 * u"
    using round_even_close [of "x / u"] assms by (intro mult_right_mono) simp_all
  finally show ?thesis
    by simp
qed

lemma ulp_exponent_le_1:
  assumes "x \<noteq> 0" and "\<bar>x\<bar> \<le> 2 ^ 53"
  shows "ulp_exponent x \<le> 1"
proof -
  have "log 2 \<bar>x\<bar> \<le> 53"
    using assms by (simp add: log_le_iff)
  then have "\<lfloor>log 2 \<bar>x\<bar>\<rfloor> \<le> 53"
    by (simp add: floor_le_iff)
  then show ?thesis
    by (simp add: ulp_exponent_def)
qed

lemma ulp_exponent_le_0:
  assumes "x \<noteq> 0" and "\<bar>x\<bar> < 2 ^ 53"
  shows "ulp_exponent x \<le> 0"
proof -
  have "log 2 \<bar>x\<bar> < 53"
    using assms by (simp add: log_less_iff)
  then have "\<lfloor>log 2 \<bar>x\<bar>\<rfloor> < 53"
    by (simp add: floor_less_iff)
  then show ?thesis
    by (simp add: ulp_exponent_def)
qed


lemma ulp_le_2:
  assumes "x \<noteq> 0" and "\<bar>x\<bar> \<le> 2 ^ 53"
  shows "2 powr of_int (ulp_exponent x) \<le> (2::real)"
proof -
  have "of_int (ulp_exponent x) \<le> (1::real)"
    using ulp_exponent_le_1 [OF assms] by simp
  then have "2 powr of_int (ulp_exponent x) \<le> 2 powr (1::real)"
    by (intro powr_mono) simp_all
  then show ?thesis
    by simp
qed

lemma to_double_near:
  assumes "\<bar>x\<bar> \<le> 2 ^ 53"
  shows "\<exists>r. to_double x = Fin r \<and> \<bar>r - x\<bar> \<le> 1"
proof (cases "x = 0")
  case True
  then show ?thesis
    by (simp add: to_double_def)
next
  case False
  define u :: real where "u = 2 powr of_int (ulp_exponent x)"
  define r where "r = of_int (round_even (x / u)) * u"
  have u: "0 < u" "u \<le> 2"
    using ulp_le_2 [OF False assms] by (simp_all add: u_def)
  have near: "\<bar>r - x\<bar> \<le> 1"
    using round_error [OF u(1), of x] u(2) by (simp add: r_def)
  then have "\<bar>r\<bar> \<le> 2 ^ 53 + 1"
    using assms by linarith
  then have "\<not> 2 ^ 1024 \<le> \<bar>r\<bar>"
    by simp
  then have "to_double x = Fin r"
    using False by (simp add: to_double_def Let_def u_def [symmetric] r_def [symmetric])
  then show ?thesis
    using near by blast
qed

lemma double_add_hour_progress:
  assumes "- (2 ^ 53) \<le> s" and "s < 0"
  shows "\<exists>r. double_add (Fin s) (Fin (60 * 60)) = Fin r \<and> s + 3599 \<le> r"
proof -
  have "\<bar>s + 3600\<bar> \<le> 2 ^ 53"
    using assms by simp
  then obtain r where "to_double (s + 3600) = Fin r" and "\<bar>r - (s + 3600)\<bar> \<le> 1"
    using to_double_near by blast
  then have "double_add (Fin s) (Fin (60 * 60)) = Fin r" and "s + 3599 \<le> r"
    by (simp, linarith)
  then show ?thesis
    by blast
qed

lemma add_hours_double_nonneg: "0 \<le> s \<Longrightarrow> add_hours_double (Fin s) = Some (Fin s)"
  by (subst add_hours_double.simps) simp

lemma add_hours_double_step:
  "s < 0 \<Longrightarrow> add_hours_double (Fin s) = add_hours_double (double_add (Fin s) (Fin (60 * 60)))"
  by (subst add_hours_double.simps) simp

lemma add_hours_double_within:
  "- (2 ^ 53) \<le> s \<Longrightarrow> - (3599 * real k) \<le> s \<Longrightarrow>
     \<exists>r. add_hours_double (Fin s) = Some (Fin r) \<and> 0 \<le> r"
proof (induction k arbitrary: s)
  case 0
  then show ?case
    by (simp add: add_hours_double_nonneg)
next
  case (Suc k)
  show ?case
  proof (cases "s < 0")
    case False
    then show ?thesis
      by (simp add: add_hours_double_nonneg)
  next
    case True
    obtain r where r: "double_add (Fin s) (Fin (60 * 60)) = Fin r" and up: "s + 3599 \<le> r"
      using double_add_hour_progress [OF Suc.prems(1) True] by blast
    have "- (2 ^ 53) \<le> r" and "- (3599 * real k) \<le> r"
      using up Suc.prems by (simp_all add: algebra_simps)
    then have "\<exists>y. add_hours_double (Fin r) = Some (Fin y) \<and> 0 \<le> y"
      by (rule Suc.IH)
    then show ?thesis
      unfolding add_hours_double_step [OF True] r .
  qed
qed

lemma add_hours_double_returns:
  assumes "- (2 ^ 53) \<le> s"
  shows "\<exists>r. add_hours_double (Fin s) = Some (Fin r) \<and> 0 \<le> r"
proof -
  obtain k :: nat where "- s \<le> real k"
    using real_arch_simple by blast
  moreover have "real k \<le> 3599 * real k"
    by simp
  ultimately have "- (3599 * real k) \<le> s"
    by linarith
  then show ?thesis
    using assms by (rule add_hours_double_within [rotated])
qed


lemma ulp_exponent_1e20: "ulp_exponent (- 99999999999999996400) = 14"
proof -
  have "\<lfloor>log 2 99999999999999996400\<rfloor> = (66::int)"
    by (subst floor_log_eq_powr_iff) simp_all
  then show ?thesis
    by (simp add: ulp_exponent_def)
qed

lemma double_add_1e20:
  "double_add (Fin (- 100000000000000000000)) (Fin (60 * 60)) = Fin (- 100000000000000000000)"
proof -
  have fl: "\<lfloor>- 99999999999999996400 / 16384 :: real\<rfloor> = - 6103515625000000"
    by (simp add: floor_eq_iff)
  have "round_even (- 99999999999999996400 / 16384) = - 6103515625000000"
    unfolding round_even_def fl by simp
  then show ?thesis
    by (simp add: to_double_def ulp_exponent_1e20 Let_def)
qed

lemma add_hours_double_not_1e20:
  "add_hours_double s = Some y \<Longrightarrow> s \<noteq> Fin (- 100000000000000000000)"
proof (rule add_hours_double.raw_induct
    [where P = "\<lambda>s y. s \<noteq> Fin (- 100000000000000000000)"], goal_cases)
  case (1 f s y)
  show ?case
  proof
    assume s: "s = Fin (- 100000000000000000000)"
    then have "js_lt s (Fin 0)"
      by simp
    then have "f (double_add s (Fin (60 * 60))) = Some y"
      using 1 by (simp only: if_True)
    then have "f (Fin (- 100000000000000000000)) = Some y"
      unfolding s double_add_1e20 .
    then show False
      using 1 by blast
  qed
qed

lemma add_hours_double_1e20: "add_hours_double (Fin (- 100000000000000000000)) = None"
proof (cases "add_hours_double (Fin (- 100000000000000000000))")
  case (Some y)
  then show ?thesis
    using add_hours_double_not_1e20 by blast
qed simp

lemma add_hours_double_not_NegInf: "add_hours_double s = Some y \<Longrightarrow> s \<noteq> NegInf"
proof (rule add_hours_double.raw_induct [where P = "\<lambda>s y. s \<noteq> NegInf"], goal_cases)
  case (1 f s y)
  then show ?case
    by (cases s) (auto split: if_splits)
qed

lemma add_hours_double_NegInf: "add_hours_double NegInf = None"
proof (cases "add_hours_double NegInf")
  case (Some y)
  then show ?thesis
    using add_hours_double_not_NegInf by blast
qed simp

lemma add_hours_double_NaN: "add_hours_double NaN = Some NaN"
  by (subst add_hours_double.simps) simp

lemma ulp_inverse_power:
  assumes "e \<le> 0"
  shows "2 powr of_int e = 1 / (2::real) ^ nat (- e)"
proof (cases "e = 0")
  case True
  then show ?thesis by simp
next
  case False
  then show ?thesis
    using assms by (simp add: powr_int)
qed

lemma to_double_of_int:
  assumes "\<bar>n\<bar> < 2 ^ 53"
  shows "to_double (of_int n) = Fin (of_int n)"
proof (cases "n = 0")
  case True
  then show ?thesis
    by (simp add: to_double_def)
next
  case False
  define k where "k = nat (- ulp_exponent (of_int n))"
  have "\<bar>real_of_int n\<bar> < 2 ^ 53"
    using assms by (metis of_int_abs of_int_less_numeral_power_cancel_iff)
  then have "ulp_exponent (of_int n) \<le> 0"
    using False by (intro ulp_exponent_le_0) simp_all
  then have u: "2 powr of_int (ulp_exponent (of_int n)) = 1 / (2::real) ^ k"
    unfolding k_def by (rule ulp_inverse_power)
  have "real_of_int n * 2 ^ k = of_int (n * 2 ^ k)"
    by simp
  then have r: "round_even (real_of_int n * 2 ^ k) = n * 2 ^ k"
    by (simp only: round_even_of_int)
  have small: "\<not> 2 ^ 1024 \<le> \<bar>real_of_int n\<bar>"
    using \<open>\<bar>real_of_int n\<bar> < 2 ^ 53\<close> by simp
  have "to_double (of_int n) =
      (if 2 ^ 1024 \<le> \<bar>real_of_int (round_even (real_of_int n * 2 ^ k)) * (1 / 2 ^ k)\<bar>
       then (if 0 < real_of_int n then PosInf else NegInf)
       else Fin (real_of_int (round_even (real_of_int n * 2 ^ k)) * (1 / 2 ^ k)))"
    using False by (simp add: to_double_def Let_def u)
  also have "real_of_int (round_even (real_of_int n * 2 ^ k)) * (1 / 2 ^ k) = real_of_int n"
    unfolding r by simp
  finally show ?thesis
    using small by (simp only: if_False)
qed

lemma to_double_below_hour:
  assumes "0 \<le> x" and "x < 3600"
  shows "\<exists>r. to_double x = Fin r \<and> 0 \<le> r \<and> r \<le> 3600"
proof (cases "x = 0")
  case True
  then show ?thesis
    by (simp add: to_double_def)
next
  case False
  define k where "k = nat (- ulp_exponent x)"
  define m where "m = round_even (x / (1 / 2 ^ k))"
  have "ulp_exponent x \<le> 0"
    using False assms by (intro ulp_exponent_le_0) simp_all
  then have u: "2 powr of_int (ulp_exponent x) = 1 / (2::real) ^ k"
    unfolding k_def by (rule ulp_inverse_power)
  have "x / (1 / 2 ^ k) \<le> of_int (3600 * 2 ^ k)"
    using assms by simp
  then have upper: "m \<le> 3600 * 2 ^ k"
    unfolding m_def by (rule round_even_le)
  have "of_int 0 \<le> x / (1 / 2 ^ k)"
    using assms by simp
  then have lower: "0 \<le> m"
    unfolding m_def by (rule round_even_ge)
  have "real_of_int m \<le> 3600 * 2 ^ k"
    using upper by (metis of_int_le_iff of_int_mult of_int_numeral of_int_power)
  then have r: "0 \<le> real_of_int m * (1 / 2 ^ k)" "real_of_int m * (1 / 2 ^ k) \<le> 3600"
    using lower by (simp_all add: field_simps)
  then have "\<not> 2 ^ 1024 \<le> \<bar>real_of_int m * (1 / 2 ^ k)\<bar>"
    by simp
  then have "to_double x = Fin (real_of_int m * (1 / 2 ^ k))"
    using False by (simp add: to_double_def Let_def u m_def)
  then show ?thesis
    using r by blast
qed


lemma normalized_step:
  assumes "s < 0"
  shows "normalized (s + 3600) = normalized s"
proof (cases "s + 3600 < 0")
  case True
  have "\<lfloor>s / 3600 + 1\<rfloor> = \<lfloor>s / 3600\<rfloor> + 1"
    by linarith
  moreover have "(s + 3600) / 3600 = s / 3600 + 1"
    by (simp add: field_simps)
  ultimately have "\<lfloor>(s + 3600) / 3600\<rfloor> = \<lfloor>s / 3600\<rfloor> + 1"
    by (simp only:)
  then show ?thesis
    using True assms by (simp add: normalized_def algebra_simps)
next
  case False
  then have "\<lfloor>s / 3600\<rfloor> = - 1"
    using assms by (simp add: floor_eq_iff)
  then show ?thesis
    using False assms by (simp add: normalized_def)
qed

lemma add_hours_double_of_int:
  "- (2 ^ 53) < n \<Longrightarrow>
     add_hours_double (Fin (of_int n)) = Some (Fin (normalized (of_int n)))"
proof (induction "nat (- n)" arbitrary: n rule: less_induct)
  case less
  show ?case
  proof (cases "n < 0")
    case False
    then show ?thesis
      by (simp add: add_hours_double_nonneg normalized_def)
  next
    case True
    have "\<bar>n + 3600\<bar> < 2 ^ 53"
      using True less.prems by simp
    then have "to_double (of_int (n + 3600)) = Fin (of_int (n + 3600))"
      by (rule to_double_of_int)
    then have add: "double_add (Fin (of_int n)) (Fin (60 * 60)) = Fin (of_int (n + 3600))"
      by simp
    have "add_hours_double (Fin (of_int (n + 3600))) =
        Some (Fin (normalized (of_int (n + 3600))))"
      using True less.prems by (intro less.hyps) simp_all
    moreover have "normalized (of_int (n + 3600)) = normalized (of_int n)"
      using normalized_step [of "of_int n"] True by simp
    moreover have "add_hours_double (Fin (of_int n)) =
        add_hours_double (Fin (of_int (n + 3600)))"
      using True add by (subst add_hours_double_step) simp_all
    ultimately show ?thesis
      by simp
  qed
qed

lemma add_hours_double_last_hour:
  assumes "- 3600 \<le> s" and "s < 0"
  shows "\<exists>r. add_hours_double (Fin s) = Some (Fin r) \<and> to_double (s + 3600) = Fin r
    \<and> 0 \<le> r \<and> r \<le> 3600"
proof -
  obtain r where r: "to_double (s + 3600) = Fin r" "0 \<le> r" "r \<le> 3600"
    using to_double_below_hour [of "s + 3600"] assms by auto
  have "add_hours_double (Fin s) = add_hours_double (Fin r)"
    using assms(2) r(1) by (subst add_hours_double_step) simp_all
  then have "add_hours_double (Fin s) = Some (Fin r)"
    using r(2) by (simp add: add_hours_double_nonneg)
  then show ?thesis
    using r by blast
qed

lemma to_double_just_below_hour: "to_double (3600 - 1 / 2 ^ 60) = Fin 3600"
proof -
  have "\<lfloor>log 2 (3600 - 1 / 2 ^ 60)\<rfloor> = (11::int)"
    by (subst floor_log_eq_powr_iff) simp_all
  then have e: "ulp_exponent (3600 - 1 / 2 ^ 60) = - 41"
    by (simp add: ulp_exponent_def)
  have u: "2 powr of_int (- 41) = 1 / (2::real) ^ 41"
    using ulp_inverse_power [of "- 41"] by simp
  have fl: "\<lfloor>(3600 - 1 / 2 ^ 60) / (1 / 2 ^ 41) :: real\<rfloor> = 3600 * 2 ^ 41 - 1"
    by (simp add: floor_eq_iff)
  have "round_even ((3600 - 1 / 2 ^ 60) / (1 / 2 ^ 41)) = 3600 * 2 ^ 41"
    unfolding round_even_def fl by simp
  then show ?thesis
    unfolding to_double_def Let_def e u by simp
qed

lemma add_hours_double_tiny: "add_hours_double (Fin (- (1 / 2 ^ 60))) = Some (Fin 3600)"
proof -
  have "double_add (Fin (- (1 / 2 ^ 60))) (Fin (60 * 60)) = to_double (3600 - 1 / 2 ^ 60)"
    by simp
  then have "add_hours_double (Fin (- (1 / 2 ^ 60))) = add_hours_double (Fin 3600)"
    unfolding to_double_just_below_hour by (subst add_hours_double_step) simp_all
  then show ?thesis
    by (simp add: add_hours_double_nonneg)
qed


lemma add_hours_agree_of_int:
  "- (2 ^ 53) < n \<Longrightarrow> add_hours_double (Fin (of_int n)) = add_hours (Fin (of_int n))"
  by (simp add: add_hours_double_of_int add_hours_Fin)

lemma stored_double:
  "add_hours_double s = Some y \<Longrightarrow>
     set_remaining_seconds_double s this =
       Some (this\<lparr>remaining_seconds := y, time_radians := seconds_to_radians_double y\<rparr>)"
  by (simp add: set_remaining_seconds_double_def)

lemma stored_double_of_int:
  "- (2 ^ 53) < n \<Longrightarrow>
     map_option remaining_seconds (set_remaining_seconds_double (Fin (of_int n)) this) =
       Some (Fin (normalized (of_int n)))"
  by (simp add: stored_double [OF add_hours_double_of_int])

lemma to_double_nonpos:
  assumes "x < 0" and "to_double x = Fin r"
  shows "r \<le> 0"
proof -
  define u :: real where "u = 2 powr of_int (ulp_exponent x)"
  have u: "0 < u"
    by (simp add: u_def)
  have "x / u \<le> of_int 0"
    using assms(1) u by (simp add: field_simps)
  then have "round_even (x / u) \<le> 0"
    by (rule round_even_le)
  then have "of_int (round_even (x / u)) * u \<le> 0"
    using u by (simp add: mult_le_0_iff)
  moreover have "r = of_int (round_even (x / u)) * u"
    using assms by (simp add: to_double_def Let_def u_def [symmetric] split: if_splits)
  ultimately show ?thesis
    by simp
qed

lemma add_hours_double_range_within:
  "- (2 ^ 53) \<le> s \<Longrightarrow> s < 0 \<Longrightarrow> - (3599 * real k) \<le> s \<Longrightarrow>
     \<exists>r. add_hours_double (Fin s) = Some (Fin r) \<and> 0 \<le> r \<and> r \<le> 3600"
proof (induction k arbitrary: s)
  case 0
  then show ?case
    by simp
next
  case (Suc k)
  show ?case
  proof (cases "0 \<le> s + 3600")
    case True
    then have "- 3600 \<le> s"
      by simp
    then show ?thesis
      using add_hours_double_last_hour [OF _ Suc.prems(2)] by blast
  next
    case False
    obtain r where r: "double_add (Fin s) (Fin (60 * 60)) = Fin r" and up: "s + 3599 \<le> r"
      using double_add_hour_progress [OF Suc.prems(1,2)] by blast
    have "to_double (s + 3600) = Fin r"
      using r by simp
    then have "r \<le> 0"
      using False by (intro to_double_nonpos [of "s + 3600"]) simp_all
    show ?thesis
    proof (cases "r < 0")
      case True
      have "- (2 ^ 53) \<le> r" and "- (3599 * real k) \<le> r"
        using up Suc.prems by (simp_all add: algebra_simps)
      then have "\<exists>y. add_hours_double (Fin r) = Some (Fin y) \<and> 0 \<le> y \<and> y \<le> 3600"
        using True by (intro Suc.IH)
      then show ?thesis
        unfolding add_hours_double_step [OF Suc.prems(2)] r .
    next
      case False
      then have "r = 0"
        using \<open>r \<le> 0\<close> by simp
      then have "add_hours_double (Fin r) = Some (Fin 0)"
        by (simp add: add_hours_double_nonneg)
      then show ?thesis
        unfolding add_hours_double_step [OF Suc.prems(2)] r using \<open>r = 0\<close> by simp
    qed
  qed
qed

lemma add_hours_double_range:
  assumes "- (2 ^ 53) \<le> s" and "s < 0"
  shows "\<exists>r. add_hours_double (Fin s) = Some (Fin r) \<and> 0 \<le> r \<and> r \<le> 3600"
proof -
  obtain k :: nat where "- s \<le> real k"
    using real_arch_simple by blast
  moreover have "real k \<le> 3599 * real k"
    by simp
  ultimately have "- (3599 * real k) \<le> s"
    by linarith
  then show ?thesis
    using assms by (intro add_hours_double_range_within)
qed

text \<open>
  C10, as the code has it.  On doubles the loop of \<open>set_remaining_seconds\<close> is left, with
  a value that is not negative, for every finite input from \<open>- 2 ^ 53\<close> upwards, so the
  call returns; for minus infinity the loop is never left; NaN is not below zero and is
  stored unchanged.
\<close>

theorem set_remaining_seconds_returns_in_range:
  "(- (2 ^ 53) \<le> s \<longrightarrow>
      (\<exists>r. add_hours_double (Fin s) = Some (Fin r) \<and> 0 \<le> r)
      \<and> (\<exists>this'. set_remaining_seconds_double (Fin s) this = Some this'))
   \<and> add_hours_double NegInf = None
   \<and> set_remaining_seconds_double NegInf this = None
   \<and> map_option remaining_seconds (set_remaining_seconds_double NaN this) = Some NaN"
proof -
  have "\<exists>this'. set_remaining_seconds_double (Fin s) this = Some this'"
    if "- (2 ^ 53) \<le> s"
    using add_hours_double_returns [OF that] stored_double by blast
  then show ?thesis
    using add_hours_double_returns [of s]
    by (simp add: add_hours_double_NegInf set_remaining_seconds_double_def
        add_hours_double_NaN)
qed

text \<open>The theorem at the input -3700.\<close>

theorem set_remaining_seconds_returns_in_range_witness:
  "- (2 ^ 53) \<le> (- 3700 :: real)
   \<and> (\<exists>r. add_hours_double (Fin (- 3700)) = Some (Fin r) \<and> 0 \<le> r)
   \<and> (\<exists>this'. set_remaining_seconds_double (Fin (- 3700)) (new_fields 0 300 150 300 150)
         = Some this')"
  using set_remaining_seconds_returns_in_range
    [of "- 3700" "new_fields 0 300 150 300 150"]
  by simp

text \<open>
  C10 as stated fails at the finite input \<open>- 10 ^ 20\<close>: the sum with 3600 rounds back to
  \<open>- 10 ^ 20\<close> (half a unit in the last place is 8192 there), so the loop is never left
  and nothing is stored.
\<close>

theorem set_remaining_seconds_loops_at_1e20:
  "double_add (Fin (- 100000000000000000000)) (Fin (60 * 60)) = Fin (- 100000000000000000000)
   \<and> add_hours_double (Fin (- 100000000000000000000)) = None
   \<and> set_remaining_seconds_double (Fin (- 100000000000000000000))
        (new_fields 0 300 150 300 150) = None"
  using double_add_1e20
  by (simp add: add_hours_double_1e20 set_remaining_seconds_double_def del: double_add.simps)

text \<open>
  C1, as the code has it, on doubles.  An input that is not negative is stored as it is,
  also when it is 3600 or more.  For an input from -3600 up to zero the loop adds once, and
  the stored value is the double nearest to \<open>s + 3600\<close>.  For every negative input from
  \<open>- 2 ^ 53\<close> upwards the stored value lies between 0 and 3600, both included: 3600
  itself is stored for \<open>- 2 ^ - 60\<close>.  For a negative whole number above \<open>- 2 ^ 53\<close> no
  addition rounds, and the stored value lies in \<open>[0, 3600)\<close>, differs from the input by a
  whole number of hours and is the value of \<open>((s % 3600) + 3600) % 3600\<close>.  A call with
  -10 stores 3590, one with -3700 stores 3500.
\<close>

theorem set_remaining_seconds_double_normalization:
  "(0 \<le> s \<longrightarrow>
      map_option remaining_seconds (set_remaining_seconds_double (Fin s) this) = Some (Fin s))
   \<and> (- 3600 \<le> s \<and> s < 0 \<longrightarrow>
      (\<exists>r. map_option remaining_seconds (set_remaining_seconds_double (Fin s) this)
             = Some (Fin r)
           \<and> to_double (s + 3600) = Fin r \<and> 0 \<le> r \<and> r \<le> 3600))
   \<and> (- (2 ^ 53) \<le> s \<and> s < 0 \<longrightarrow>
      (\<exists>r. map_option remaining_seconds (set_remaining_seconds_double (Fin s) this)
             = Some (Fin r)
           \<and> 0 \<le> r \<and> r \<le> 3600))
   \<and> (- (2 ^ 53) < n \<and> n < 0 \<longrightarrow>
      map_option remaining_seconds (set_remaining_seconds_double (Fin (of_int n)) this)
        = Some (Fin (normalized (of_int n)))
      \<and> 0 \<le> normalized (of_int n) \<and> normalized (of_int n) < 3600
      \<and> (\<exists>k::nat. normalized (of_int n) = of_int n + 3600 * real k)
      \<and> spec_normalize (Fin (of_int n)) = Fin (normalized (of_int n)))
   \<and> map_option remaining_seconds (set_remaining_seconds_double (Fin (- (1 / 2 ^ 60))) this)
       = Some (Fin 3600)
   \<and> map_option remaining_seconds (set_remaining_seconds_double (Fin (- 10)) this)
       = Some (Fin 3590)
   \<and> map_option remaining_seconds (set_remaining_seconds_double (Fin (- 3700)) this)
       = Some (Fin 3500)"
proof -
  have kept: "map_option remaining_seconds (set_remaining_seconds_double (Fin s) this)
      = Some (Fin s)" if "0 \<le> s"
    by (simp add: stored_double [OF add_hours_double_nonneg [OF that]])
  have once: "\<exists>r. map_option remaining_seconds (set_remaining_seconds_double (Fin s) this)
        = Some (Fin r) \<and> to_double (s + 3600) = Fin r \<and> 0 \<le> r \<and> r \<le> 3600"
    if lo: "- 3600 \<le> s" and hi: "s < 0"
  proof -
    obtain r where "add_hours_double (Fin s) = Some (Fin r)" and "to_double (s + 3600) = Fin r"
      and "0 \<le> r" and "r \<le> 3600"
      using add_hours_double_last_hour [OF lo hi] by blast
    then show ?thesis
      by (intro exI [of _ r]) (simp add: stored_double)
  qed
  have range: "\<exists>r. map_option remaining_seconds (set_remaining_seconds_double (Fin s) this)
        = Some (Fin r) \<and> 0 \<le> r \<and> r \<le> 3600"
    if lo: "- (2 ^ 53) \<le> s" and hi: "s < 0"
  proof -
    obtain r where "add_hours_double (Fin s) = Some (Fin r)" and "0 \<le> r" and "r \<le> 3600"
      using add_hours_double_range [OF lo hi] by blast
    then show ?thesis
      by (intro exI [of _ r]) (simp add: stored_double)
  qed
  have whole: "map_option remaining_seconds (set_remaining_seconds_double (Fin (of_int n)) this)
        = Some (Fin (normalized (of_int n)))
      \<and> 0 \<le> normalized (of_int n) \<and> normalized (of_int n) < 3600
      \<and> (\<exists>k::nat. normalized (of_int n) = of_int n + 3600 * real k)
      \<and> spec_normalize (Fin (of_int n)) = Fin (normalized (of_int n))"
    if "- (2 ^ 53) < n" and "n < 0"
  proof -
    have "real_of_int n < 3600"
      using that(2) by simp
    then show ?thesis
      using stored_double_of_int [OF that(1), of this] normalized_nonneg [of "of_int n"]
        normalized_congruent [of "of_int n"] normalized_below_hour [of "of_int n"]
      by blast
  qed
  have tiny: "map_option remaining_seconds
      (set_remaining_seconds_double (Fin (- (1 / 2 ^ 60))) this) = Some (Fin 3600)"
    using stored_double [OF add_hours_double_tiny, of this] by simp
  have ten: "map_option remaining_seconds (set_remaining_seconds_double (Fin (- 10)) this)
      = Some (Fin 3590)"
    using stored_double_of_int [of "- 10" this] by (simp add: normalized_minus_10)
  have more: "map_option remaining_seconds (set_remaining_seconds_double (Fin (- 3700)) this)
      = Some (Fin 3500)"
    using stored_double_of_int [of "- 3700" this] by (simp add: normalized_minus_3700)
  show ?thesis
    using kept once range whole tiny ten more by blast
qed

text \<open>The theorem at the inputs 3700, \<open>- 1 / 3\<close> and -7300.\<close>

theorem set_remaining_seconds_double_normalization_witness:
  "map_option remaining_seconds
     (set_remaining_seconds_double (Fin 3700) (new_fields 0 300 150 300 150)) = Some (Fin 3700)
   \<and> (\<exists>r. map_option remaining_seconds
          (set_remaining_seconds_double (Fin (- (1 / 3))) (new_fields 0 300 150 300 150))
            = Some (Fin r)
        \<and> to_double (- (1 / 3) + 3600) = Fin r \<and> 0 \<le> r \<and> r \<le> 3600)
   \<and> map_option remaining_seconds
        (set_remaining_seconds_double (Fin (of_int (- 7300))) (new_fields 0 300 150 300 150))
       = Some (Fin 3500)"
proof -
  have "\<lfloor>- 7300 / 3600 :: real\<rfloor> = - 3"
    by (simp add: floor_eq_iff)
  then have n: "normalized (- 7300) = 3500"
    by (simp add: normalized_def)
  show ?thesis
    using set_remaining_seconds_double_normalization
      [of 3700 "new_fields 0 300 150 300 150" "- 7300"]
      set_remaining_seconds_double_normalization
      [of "- (1 / 3)" "new_fields 0 300 150 300 150" "- 7300"]
    by (simp add: n)
qed

text \<open>
  C1 as stated fails at \<open>s = 3700\<close>: the loop is not entered, 3700 is stored, with the
  exact and with the rounded addition alike; it is not below 3600 and is not the 100 that
  \<open>((s % 3600) + 3600) % 3600\<close> gives.
\<close>

theorem set_remaining_seconds_3700:
  "map_option remaining_seconds
     (set_remaining_seconds (Fin 3700) (new_fields 0 300 150 300 150)) = Some (Fin 3700)
   \<and> \<not> (3700 < (3600 :: real))
   \<and> spec_normalize (Fin 3700) = Fin 100
   \<and> map_option remaining_seconds
        (set_remaining_seconds_double (Fin 3700) (new_fields 0 300 150 300 150))
       = Some (Fin 3700)"
proof -
  have r: "js_rem (Fin 3700) (Fin 3600) = Fin 100"
    by (simp add: trunc_def)
  have "spec_normalize (Fin 3700) = Fin 100"
    by (simp add: spec_normalize_def r trunc_def)
  moreover have "add_hours_double (Fin 3700) = Some (Fin 3700)"
    by (rule add_hours_double_nonneg) simp
  ultimately show ?thesis
    by (simp add: set_remaining_seconds_Fin normalized_def stored_double)
qed

section \<open>What a render pass draws\<close>

lemma emit_emit: "emit ys (emit xs this) = emit (xs @ ys) this"
  by (simp add: emit_def)

lemma emit_Nil: "emit [] this = this"
  by (simp add: emit_def)

lemma render_clock_mark_emit:
  "render_clock_mark i d this = emit (mark_ops (needs_full_render this) (height this) i d) this"
  by (simp add: render_clock_mark_def mark_ops_def Let_def emit_def)

lemma mark_angle_Suc: "js_sub (Fin (mark_angle i)) degrees_per_element = Fin (mark_angle (Suc i))"
  by (simp add: mark_angle_def degrees_per_element_def Math_PI_def num_def nr_elements_def algebra_simps)

lemma render_clock_for_emit:
  "i \<le> 60 \<Longrightarrow> render_clock_for i (Fin (mark_angle i)) this =
     emit (concat (map (\<lambda>j. mark_ops (needs_full_render this) (height this) j (Fin (mark_angle j)))
       [i..<60])) this"
proof (induction "60 - i" arbitrary: i this)
  case 0
  then have "i = 60" by simp
  then show ?case
    by (subst render_clock_for.simps) (simp add: nr_elements_def emit_Nil)
next
  case (Suc n)
  then have less: "i < 60" by simp
  have step: "render_clock_for i (Fin (mark_angle i)) this =
      render_clock_for (Suc i) (Fin (mark_angle (Suc i))) (render_clock_mark i (Fin (mark_angle i)) this)"
    using less by (subst render_clock_for.simps) (simp add: nr_elements_def mark_angle_Suc)
  have n: "n = 60 - Suc i" using Suc.hyps(2) by simp
  have le: "Suc i \<le> 60" using less by simp
  show ?case
    unfolding step Suc.hyps(1) [OF n le]
    by (simp add: render_clock_mark_emit emit_emit upt_conv_Cons [OF less] emit_def)
qed

lemma render_clock_emit:
  "render_clock this =
     (emit (clock_ops (needs_full_render this) (height this)) this)\<lparr>needs_full_render := False\<rparr>"
proof -
  have start: "js_div (js_neg Math_PI) (Fin 2) = Fin (mark_angle 0)"
    by (simp add: Math_PI_def mark_angle_def)
  show ?thesis
    unfolding render_clock_def Let_def start
    by (simp add: render_clock_for_emit emit_emit clock_ops_def emit_def)
qed


lemma render_fill_emit: "render_fill this = emit (fill_ops this) this"
  by (simp add: render_fill_def fill_ops_def Let_def)

lemma setup_font_emit:
  "setup_font this = emit [SetTextAlign ''center'', SetTextBaseline ''middle'',
     SetFont (js_mul (num (width this)) (Fin 0.05))] this"
  by (simp add: setup_font_def)

lemma render_eq:
  "render now this =
     (emit (frame_ops (resized this)) (resized this))
       \<lparr>needs_full_render := False, prev_render_ms := ms now\<rparr>"
  by (simp add: render_def resized_def Let_def render_fill_emit setup_font_emit render_clock_emit
      frame_ops_def fill_ops_def emit_def)

lemma labels_append [simp]: "labels (xs @ ys) = labels xs @ labels ys"
  by (simp add: labels_def)

lemma labels_Cons: "labels (x # xs) = label_of x @ labels xs"
  by (simp add: labels_def)

lemma labels_Nil [simp]: "labels [] = []"
  by (simp add: labels_def)

lemma labels_mark_ops:
  "labels (mark_ops full h i d) = (if full \<and> i mod 5 = 0 then [nat_to_string i] else [])"
  by (simp add: mark_ops_def Let_def labels_Cons)

lemma labels_marks:
  "labels (concat (map (\<lambda>i. mark_ops full h i (f i)) xs)) =
     (if full then map nat_to_string (filter (\<lambda>i. i mod 5 = 0) xs) else [])"
  by (induction xs) (simp_all add: labels_mark_ops)

lemma labels_clock_ops:
  "labels (clock_ops full h) =
     (if full then map nat_to_string (filter (\<lambda>i. i mod 5 = 0) [0..<60]) else [])"
  unfolding clock_ops_def labels_Cons labels_append labels_marks
  by (simp add: labels_Cons)

lemma labels_fill_ops: "labels (fill_ops this) = []"
  by (simp add: fill_ops_def labels_Cons)

lemma labels_frame_ops:
  "labels (frame_ops this) =
     (if needs_full_render this then map nat_to_string (filter (\<lambda>i. i mod 5 = 0) [0..<60]) else [])"
  unfolding frame_ops_def labels_append labels_fill_ops labels_clock_ops
  by (simp add: labels_Cons)

lemma line_widths_append [simp]: "line_widths (xs @ ys) = line_widths xs @ line_widths ys"
  by (simp add: line_widths_def)

lemma line_widths_Cons: "line_widths (x # xs) = line_width_of x @ line_widths xs"
  by (simp add: line_widths_def)

lemma line_widths_Nil [simp]: "line_widths [] = []"
  by (simp add: line_widths_def)

lemma line_widths_mark_ops:
  "line_widths (mark_ops full h i d) = [if i mod 5 = 0 then Fin 5 else Fin 1]"
  by (simp add: mark_ops_def Let_def line_widths_Cons)

lemma line_widths_marks:
  "line_widths (concat (map (\<lambda>i. mark_ops full h i (f i)) xs)) =
     map (\<lambda>i. if i mod 5 = 0 then Fin 5 else Fin 1) xs"
  by (induction xs) (simp_all add: line_widths_mark_ops)

lemma line_widths_clock_ops:
  "line_widths (clock_ops full h) = map (\<lambda>i. if i mod 5 = 0 then Fin 5 else Fin 1) [0..<60]"
  unfolding clock_ops_def line_widths_Cons line_widths_append line_widths_marks
  by (simp add: line_widths_Cons)

lemma clears_append [simp]: "clears (xs @ ys) = clears xs @ clears ys"
  by (simp add: clears_def)

lemma clears_Cons: "clears (x # xs) = clear_of x @ clears xs"
  by (simp add: clears_def)

lemma clears_Nil [simp]: "clears [] = []"
  by (simp add: clears_def)

lemma clears_mark_ops: "clears (mark_ops full h i d) = []"
  by (simp add: mark_ops_def Let_def clears_Cons)

lemma clears_marks: "clears (concat (map (\<lambda>i. mark_ops full h i (f i)) xs)) = []"
  by (induction xs) (simp_all add: clears_mark_ops)

lemma clears_frame_ops: "clears (frame_ops this) = []"
  unfolding frame_ops_def clock_ops_def fill_ops_def clears_append clears_Cons clears_marks
  by simp

lemma five_labels:
  "map nat_to_string (filter (\<lambda>i. i mod 5 = 0) [0..<60]) =
     [''0'', ''5'', ''10'', ''15'', ''20'', ''25'', ''30'', ''35'', ''40'', ''45'', ''50'', ''55'']"
  by code_simp

section \<open>The render pass and the resolution\<close>

lemma resized_eq:
  "resized this =
     (if resolution_differs this then
        this\<lparr>width := clientWidth this, height := clientWidth this,
             center := \<lparr>coord_x = Fin (real (clientWidth this) / 2),
                        coord_y = Fin (real (clientWidth this) / 2)\<rparr>,
             ctx := ctx this @ [ClearRect (Fin 0) (Fin 0) (num (clientWidth this)) (num (clientWidth this))],
             needs_full_render := True\<rparr>
      else this)"
  by (simp add: resized_def resolution_differs_def setup_resolution_def Let_def emit_def num_def)

lemma render_kept:
  "remaining_seconds (render now this) = remaining_seconds this"
  "time_radians (render now this) = time_radians this"
  "animation_timer (render now this) = animation_timer this"
  "drag_starting_angle (render now this) = drag_starting_angle this"
  "drag_starting_remaining_seconds (render now this) = drag_starting_remaining_seconds this"
  "window_timers (render now this) = window_timers this"
  "window_next_handle (render now this) = window_next_handle this"
  "mousemove_attached (render now this) = mousemove_attached this"
  "touchmove_attached (render now this) = touchmove_attached this"
  "clientWidth (render now this) = clientWidth this"
  "clientHeight (render now this) = clientHeight this"
  "prev_render_ms (render now this) = ms now"
  "needs_full_render (render now this) = False"
  by (simp_all add: render_eq resized_eq emit_def)

lemma render_geometry:
  "width (render now this) = width (resized this)"
  "height (render now this) = height (resized this)"
  "center (render now this) = center (resized this)"
  "ctx (render now this) = ctx (resized this) @ frame_ops (resized this)"
  by (simp_all add: render_eq emit_def)

lemma render_clock_ctx:
  "ctx (render_clock this) = ctx this @ clock_ops (needs_full_render this) (height this)"
  by (simp add: render_clock_emit emit_def)

lemma render_clock_flag: "needs_full_render (render_clock this) = False"
  by (simp add: render_clock_emit)

text \<open>
  C6, as the code has it.  The clock-face pass draws the 60 marks in order; the line width
  is 5 at every mark whose index is divisible by 5 and 1 at every other mark; while
  \<open>needs_full_render\<close> holds each mark with an index divisible by 5 has, before its line, a
  label that shows the index of the mark itself (\<open>(i * 5) / 5 = i\<close>: 0, 5, ..., 55), and
  no label is drawn otherwise; the pass clears the flag.
\<close>

theorem render_clock_marks:
  "ctx (render_clock this) = ctx this @ clock_ops (needs_full_render this) (height this)
   \<and> line_widths (ctx (render_clock this)) =
       line_widths (ctx this) @ map (\<lambda>i. if i mod 5 = 0 then Fin 5 else Fin 1) [0..<60]
   \<and> labels (ctx (render_clock this)) =
       labels (ctx this)
       @ (if needs_full_render this
          then map nat_to_string (filter (\<lambda>i. i mod 5 = 0) [0..<60]) else [])
   \<and> needs_full_render (render_clock this) = False"
  by (simp add: render_clock_ctx line_widths_clock_ops labels_clock_ops render_clock_flag)

text \<open>
  C6 as stated fails at the mark 5: its label is \<open>5\<close>, where the index divided by 5
  would be \<open>1\<close>.
\<close>

theorem render_clock_label_of_mark_5:
  "labels (ctx (render_clock (new_fields 0 300 300 300 300))) =
     [''0'', ''5'', ''10'', ''15'', ''20'', ''25'', ''30'', ''35'', ''40'', ''45'', ''50'', ''55'']
   \<and> labels (ctx (render_clock_mark 5 (Fin (mark_angle 5)) (new_fields 0 300 300 300 300)))
       = [''5'']
   \<and> labels (ctx (render_clock_mark 5 (Fin (mark_angle 5)) (new_fields 0 300 300 300 300)))
       \<noteq> [nat_to_string (5 div 5)]"
proof -
  have five: "nat_to_string 5 = ''5''"
    by code_simp
  have one: "nat_to_string (5 div 5) = ''1''"
    by code_simp
  have all: "labels (ctx (render_clock (new_fields 0 300 300 300 300))) =
      map nat_to_string (filter (\<lambda>i. i mod 5 = 0) [0..<60])"
    by (simp add: render_clock_ctx labels_clock_ops new_fields_def)
  have mark: "labels (ctx (render_clock_mark 5 (Fin (mark_angle 5))
      (new_fields 0 300 300 300 300))) = [''5'']"
    by (simp add: render_clock_mark_emit emit_def labels_mark_ops new_fields_def five)
  show ?thesis
    unfolding all five_labels mark one by simp
qed

lemma render_twice_labels:
  "labels (ctx (render t2 (render t this))) = labels (ctx (render t this))"
proof -
  have same: "resized (render t this) = render t this"
    by (simp add: resized_eq resolution_differs_def render_kept render_geometry)
  show ?thesis
    by (simp add: render_geometry [of t2] same labels_frame_ops render_kept)
qed

text \<open>
  C7, as the code has it.  \<open>needs_full_render\<close> holds after the assignments of the
  constructor.  A render call that finds the width different from the height, and the
  canvas of another size than its client box, sets width and height to the client width,
  moves the center to half the client width in both directions, clears the surface and
  draws the labels itself; any other render call keeps width, height and center, clears
  nothing, and draws the labels exactly when the flag was set before.  Every render call
  leaves the flag cleared, and the render call that follows it draws no label.
\<close>

theorem render_resize_detection:
  "needs_full_render (new_fields now w h cw ch)
   \<and> (if resolution_differs this
       then width (render t this) = clientWidth this
          \<and> height (render t this) = clientWidth this
          \<and> center (render t this) =
              \<lparr>coord_x = Fin (real (clientWidth this) / 2),
               coord_y = Fin (real (clientWidth this) / 2)\<rparr>
          \<and> clears (ctx (render t this)) =
              clears (ctx this)
              @ [ClearRect (Fin 0) (Fin 0) (num (clientWidth this)) (num (clientWidth this))]
          \<and> labels (ctx (render t this)) = labels (ctx this) @ hour_labels
       else width (render t this) = width this
          \<and> height (render t this) = height this
          \<and> center (render t this) = center this
          \<and> clears (ctx (render t this)) = clears (ctx this)
          \<and> labels (ctx (render t this)) =
              labels (ctx this) @ (if needs_full_render this then hour_labels else []))
   \<and> needs_full_render (render t this) = False
   \<and> labels (ctx (render t2 (render t this))) = labels (ctx (render t this))"
proof -
  have first: "needs_full_render (new_fields now w h cw ch)"
    by (simp add: new_fields_def)
  have geometry: "if resolution_differs this
       then width (render t this) = clientWidth this
          \<and> height (render t this) = clientWidth this
          \<and> center (render t this) =
              \<lparr>coord_x = Fin (real (clientWidth this) / 2),
               coord_y = Fin (real (clientWidth this) / 2)\<rparr>
          \<and> clears (ctx (render t this)) =
              clears (ctx this)
              @ [ClearRect (Fin 0) (Fin 0) (num (clientWidth this)) (num (clientWidth this))]
          \<and> labels (ctx (render t this)) = labels (ctx this) @ hour_labels
       else width (render t this) = width this
          \<and> height (render t this) = height this
          \<and> center (render t this) = center this
          \<and> clears (ctx (render t this)) = clears (ctx this)
          \<and> labels (ctx (render t this)) =
              labels (ctx this) @ (if needs_full_render this then hour_labels else [])"
    by (simp add: render_geometry resized_eq clears_frame_ops labels_frame_ops hour_labels_def
        clears_Cons labels_Cons)
  show ?thesis
    using first geometry render_twice_labels [of t2 t this]
    by (simp only: render_kept simp_thms)
qed

text \<open>
  The theorem at a canvas of 300 by 150 in a client box of 200 by 200: the first render
  makes the canvas 200 by 200, centres it at (100, 100), clears it and draws the labels;
  the second render draws none.
\<close>

theorem render_resize_detection_witness:
  "resolution_differs (new_fields 0 300 150 200 200)
   \<and> width (render 1 (new_fields 0 300 150 200 200)) = 200
   \<and> height (render 1 (new_fields 0 300 150 200 200)) = 200
   \<and> center (render 1 (new_fields 0 300 150 200 200)) = \<lparr>coord_x = Fin 100, coord_y = Fin 100\<rparr>
   \<and> clears (ctx (render 1 (new_fields 0 300 150 200 200)))
       = [ClearRect (Fin 0) (Fin 0) (Fin 200) (Fin 200)]
   \<and> labels (ctx (render 1 (new_fields 0 300 150 200 200))) = hour_labels
   \<and> labels (ctx (render 2 (render 1 (new_fields 0 300 150 200 200)))) = hour_labels"
proof -
  have differs: "resolution_differs (new_fields 0 300 150 200 200)"
    by (simp add: resolution_differs_def new_fields_def)
  have fields: "clientWidth (new_fields 0 300 150 200 200) = 200"
    "ctx (new_fields 0 300 150 200 200) = []"
    by (simp_all add: new_fields_def)
  show ?thesis
    using render_resize_detection
      [where this = "new_fields 0 300 150 200 200" and t = 1 and ?t2.0 = 2]
    by (simp add: differs fields num_def)
qed

text \<open>
  C7 as stated fails on a canvas of 300 by 150 whose client box is 300 by 150 too: after
  the first render the width still differs from the height, and the second render keeps
  the center at the origin, clears nothing and draws no label.
\<close>

theorem render_keeps_center_of_300_by_150:
  "width (render 1 (new_fields 0 300 150 300 150))
     \<noteq> height (render 1 (new_fields 0 300 150 300 150))
   \<and> center (render 2 (render 1 (new_fields 0 300 150 300 150)))
       = \<lparr>coord_x = Fin 0, coord_y = Fin 0\<rparr>
   \<and> clears (ctx (render 2 (render 1 (new_fields 0 300 150 300 150)))) = []
   \<and> needs_full_render (render 1 (new_fields 0 300 150 300 150)) = False
   \<and> labels (ctx (render 2 (render 1 (new_fields 0 300 150 300 150))))
       = labels (ctx (render 1 (new_fields 0 300 150 300 150)))"
proof -
  have same: "resized (new_fields 0 300 150 300 150) = new_fields 0 300 150 300 150"
    by (simp add: resized_eq resolution_differs_def new_fields_def)
  have same': "resized (render 1 (new_fields 0 300 150 300 150))
      = render 1 (new_fields 0 300 150 300 150)"
    by (simp add: resized_eq resolution_differs_def render_kept render_geometry)
  have fields: "width (new_fields 0 300 150 300 150) = 300"
    "height (new_fields 0 300 150 300 150) = 150"
    "center (new_fields 0 300 150 300 150) = \<lparr>coord_x = Fin 0, coord_y = Fin 0\<rparr>"
    "ctx (new_fields 0 300 150 300 150) = []"
    by (simp_all add: new_fields_def)
  have geometry: "width (render 1 (new_fields 0 300 150 300 150)) = 300"
    "height (render 1 (new_fields 0 300 150 300 150)) = 150"
    "center (render 2 (render 1 (new_fields 0 300 150 300 150)))
       = \<lparr>coord_x = Fin 0, coord_y = Fin 0\<rparr>"
    "clears (ctx (render 2 (render 1 (new_fields 0 300 150 300 150)))) = []"
    by (simp_all add: render_geometry same same' fields clears_frame_ops)
  show ?thesis
    using geometry render_twice_labels [of 2 1 "new_fields 0 300 150 300 150"]
    by (simp add: render_kept)
qed

section \<open>Timers and event sequences\<close>

lemma not_infinite_cases: "not_infinite n = ((\<exists>r. n = Fin r) \<or> n = NaN)"
  by (cases n) simp_all

lemma not_infinite_add: "not_infinite a \<Longrightarrow> not_infinite b \<Longrightarrow> not_infinite (js_add a b)"
  by (cases a; cases b) simp_all

lemma not_infinite_sub: "not_infinite a \<Longrightarrow> not_infinite b \<Longrightarrow> not_infinite (js_sub a b)"
  by (cases a; cases b) (simp_all add: js_sub_def)

lemma not_infinite_rem: "not_infinite (js_rem a b)"
  by (cases a; cases b) simp_all

lemma not_infinite_radians_to_seconds: "not_infinite a \<Longrightarrow> not_infinite (radians_to_seconds a)"
  by (cases a) (simp_all add: radians_to_seconds_def Math_PI_def)

lemma not_infinite_div_1000: "not_infinite a \<Longrightarrow> not_infinite (js_div a (Fin 1000))"
  by (cases a) simp_all

lemma not_infinite_ms [simp]: "not_infinite (ms t)"
  by (simp add: ms_def)

lemma not_infinite_pointer_angle: "not_infinite (pointer_angle event this)"
  by (simp add: pointer_angle_def Let_def not_infinite_rem)

lemma add_hours_not_infinite:
  "not_infinite s \<Longrightarrow> \<exists>y. add_hours s = Some y \<and> not_infinite y"
  by (cases s) (simp_all add: add_hours_Fin add_hours_NaN)

lemma set_remaining_seconds_returns:
  assumes "not_infinite s"
  shows "\<exists>y. not_infinite y \<and> set_remaining_seconds s this =
    Some (this\<lparr>remaining_seconds := y, time_radians := seconds_to_radians y\<rparr>)"
  using add_hours_not_infinite [OF assms] by (auto simp: set_remaining_seconds_def)

lemma animate_clock_eq:
  "animate_clock this =
     this\<lparr>window_timers := insert (window_next_handle this)
             (window_timers this - set_option (animation_timer this)),
          window_next_handle := window_next_handle this + 1,
          animation_timer := Some (window_next_handle this)\<rparr>"
  by (cases "animation_timer this")
     (simp_all add: animate_clock_def clearTimeout_def setInterval_def Let_def)

lemma animate_clock_timers:
  "one_timer this \<Longrightarrow> window_timers (animate_clock this) = {window_next_handle this}"
  by (auto simp: animate_clock_eq one_timer_def)

lemma one_timer_animate_clock: "one_timer this \<Longrightarrow> one_timer (animate_clock this)"
  by (auto simp: one_timer_def animate_clock_eq)

lemma one_timer_render: "one_timer (render t this) = one_timer this"
  by (simp add: one_timer_def render_kept)

lemma returning_render: "returning this \<Longrightarrow> returning (render t this)"
  by (simp add: returning_def render_kept)

lemma returning_animate_clock: "returning (animate_clock this) = returning this"
  by (simp add: returning_def animate_clock_eq)

lemma one_timer_clearTimeout: "one_timer this \<Longrightarrow> one_timer (clearTimeout h this)"
  by (cases h) (auto simp: one_timer_def clearTimeout_def)

lemma returning_clearTimeout: "returning (clearTimeout h this) = returning this"
  by (cases h) (simp_all add: returning_def clearTimeout_def)

lemma one_timer_card: "one_timer this \<Longrightarrow> card (window_timers this) \<le> 1"
  by (cases "animation_timer this") (auto simp: one_timer_def subset_singleton_iff)


lemma interval_callback_eq:
  "interval_callback now t this =
     (if expired now this
      then set_remaining_seconds (Fin 0) (clearTimeout (animation_timer this) (render t this))
      else set_remaining_seconds (js_sub (remaining_seconds this) (secs_since now this))
             (render t this))"
  by (simp add: interval_callback_def Let_def render_kept expired_def secs_since_def)

lemma interval_callback_part_000_eq:
  "interval_callback_part_000 now t t2 this =
     (if expired now this
      then map_option (render t2)
             (set_remaining_seconds (Fin 0) (clearTimeout (animation_timer this) (render t this)))
      else set_remaining_seconds (js_sub (remaining_seconds this) (secs_since now this))
             (render t this))"
  by (simp add: interval_callback_part_000_def Let_def render_kept expired_def secs_since_def)

lemma mousemove_handler_first:
  assumes "drag_starting_angle this = None \<or> drag_starting_remaining_seconds this = None"
  shows "mousemove_handler event t this =
     Some (animate_clock (render t
       (this\<lparr>drag_starting_angle := Some (pointer_angle event this),
              drag_starting_remaining_seconds := Some (remaining_seconds this)\<rparr>)))"
  using assms by (auto simp: mousemove_handler_def Let_def split: option.splits)

lemma mousemove_handler_drag:
  assumes "drag_starting_angle this = Some a0"
    and "drag_starting_remaining_seconds this = Some r0"
  shows "mousemove_handler event t this =
     map_option (\<lambda>this. animate_clock (render t this))
       (set_remaining_seconds
          (js_add r0 (radians_to_seconds (js_sub a0 (pointer_angle event this)))) this)"
  using assms by (simp add: mousemove_handler_def Let_def)

lemma steady_set_remaining_seconds:
  assumes "steady this" and "not_infinite s"
  shows "\<exists>this'. set_remaining_seconds s this = Some this' \<and> steady this'"
proof -
  obtain y where y: "not_infinite y"
    and eq: "set_remaining_seconds s this =
      Some (this\<lparr>remaining_seconds := y, time_radians := seconds_to_radians y\<rparr>)"
    using set_remaining_seconds_returns [OF assms(2)] by blast
  have "steady (this\<lparr>remaining_seconds := y, time_radians := seconds_to_radians y\<rparr>)"
    using assms(1) y by (simp add: steady_def returning_def one_timer_def)
  then show ?thesis
    using eq by simp
qed

lemma steady_render: "steady this \<Longrightarrow> steady (render t this)"
  by (simp add: steady_def returning_render one_timer_render)

lemma steady_animate_clock: "steady this \<Longrightarrow> steady (animate_clock this)"
  by (simp add: steady_def returning_animate_clock one_timer_animate_clock)

lemma steady_clearTimeout: "steady this \<Longrightarrow> steady (clearTimeout h this)"
  by (simp add: steady_def returning_clearTimeout one_timer_clearTimeout)

lemma steady_secs: "steady this \<Longrightarrow>
    not_infinite (js_sub (remaining_seconds this) (secs_since now this))"
  by (simp add: steady_def returning_def secs_since_def not_infinite_sub not_infinite_div_1000)

lemma steady_interval_callback:
  assumes "steady this"
  shows "\<exists>this'. interval_callback now t this = Some this' \<and> steady this'"
proof (cases "expired now this")
  case True
  have "steady (clearTimeout (animation_timer this) (render t this))"
    using assms by (simp add: steady_render steady_clearTimeout)
  then show ?thesis
    using True by (simp add: interval_callback_eq steady_set_remaining_seconds)
next
  case False
  have "not_infinite (js_sub (remaining_seconds this) (secs_since now this))"
    using assms by (rule steady_secs)
  then show ?thesis
    using False assms by (simp add: interval_callback_eq steady_set_remaining_seconds steady_render)
qed

lemma steady_interval_callback_part_000:
  assumes "steady this"
  shows "\<exists>this'. interval_callback_part_000 now t t2 this = Some this' \<and> steady this'"
proof (cases "expired now this")
  case True
  have "steady (clearTimeout (animation_timer this) (render t this))"
    using assms by (simp add: steady_render steady_clearTimeout)
  then obtain this' where "set_remaining_seconds (Fin 0)
      (clearTimeout (animation_timer this) (render t this)) = Some this'" and "steady this'"
    using steady_set_remaining_seconds [of _ "Fin 0"] by force
  then show ?thesis
    using True by (simp add: interval_callback_part_000_eq steady_render)
next
  case False
  have "not_infinite (js_sub (remaining_seconds this) (secs_since now this))"
    using assms by (rule steady_secs)
  then show ?thesis
    using False assms
    by (simp add: interval_callback_part_000_eq steady_set_remaining_seconds steady_render)
qed

lemma steady_mousemove_handler:
  assumes "steady this"
  shows "\<exists>this'. mousemove_handler event t this = Some this' \<and> steady this'"
proof (cases "drag_starting_angle this = None \<or> drag_starting_remaining_seconds this = None")
  case True
  have "steady (this\<lparr>drag_starting_angle := Some (pointer_angle event this),
      drag_starting_remaining_seconds := Some (remaining_seconds this)\<rparr>)"
    using assms by (simp add: steady_def returning_def one_timer_def not_infinite_pointer_angle)
  then show ?thesis
    by (simp add: mousemove_handler_first [OF True] steady_render steady_animate_clock)
next
  case False
  then obtain a0 r0 where a0: "drag_starting_angle this = Some a0"
    and r0: "drag_starting_remaining_seconds this = Some r0"
    by auto
  have "not_infinite a0" and "not_infinite r0"
    using assms a0 r0 by (simp_all add: steady_def returning_def)
  then have "not_infinite (js_add r0 (radians_to_seconds (js_sub a0 (pointer_angle event this))))"
    by (simp add: not_infinite_add not_infinite_radians_to_seconds not_infinite_sub
        not_infinite_pointer_angle)
  then obtain this' where "set_remaining_seconds
      (js_add r0 (radians_to_seconds (js_sub a0 (pointer_angle event this)))) this = Some this'"
    and "steady this'"
    using steady_set_remaining_seconds [OF assms] by blast
  then show ?thesis
    by (simp add: mousemove_handler_drag [OF a0 r0] steady_render steady_animate_clock)
qed

lemma steady_setup_resolution: "steady this \<Longrightarrow> steady (setup_resolution this)"
  by (simp add: steady_def returning_def one_timer_def setup_resolution_def Let_def emit_def)

lemma steady_dispatch:
  assumes "steady this"
  shows "\<exists>this'. dispatch src e this = Some this' \<and> steady this'"
proof (cases e)
  case Mousedown
  then show ?thesis
    using assms by (simp add: steady_def returning_def one_timer_def)
next
  case (Mousemove event t)
  then show ?thesis
    using assms steady_mousemove_handler [OF assms] by simp
next
  case Mouseup
  then show ?thesis
    using assms by (simp add: steady_def returning_def one_timer_def)
next
  case Touchstart
  then show ?thesis
    using assms by (simp add: steady_def returning_def one_timer_def)
next
  case (Touchmove touches t)
  then show ?thesis
    using assms steady_mousemove_handler [OF assms] by (cases touches) simp_all
next
  case Touchend
  then show ?thesis
    using assms by (simp add: steady_def returning_def one_timer_def)
next
  case (Resize cw ch)
  have "steady (this\<lparr>clientWidth := cw, clientHeight := ch\<rparr>)"
    using assms by (simp add: steady_def returning_def one_timer_def)
  then show ?thesis
    using Resize by (simp add: steady_setup_resolution)
next
  case (Interval h now t t2)
  then show ?thesis
    using assms steady_interval_callback [OF assms] steady_interval_callback_part_000 [OF assms]
    by (cases src) simp_all
qed

lemma steady_run:
  "steady this \<Longrightarrow> \<exists>this'. run src es this = Some this' \<and> steady this'"
proof (induction es arbitrary: this)
  case Nil
  then show ?case by simp
next
  case (Cons e es)
  obtain this1 where "dispatch src e this = Some this1" and "steady this1"
    using steady_dispatch [OF Cons.prems] by blast
  then show ?case
    using Cons.IH [of this1] by simp
qed

lemma steady_new_fields: "steady (new_fields now w h cw ch)"
  by (simp add: steady_def returning_def one_timer_def new_fields_def)

lemma steady_setup: "steady this \<Longrightarrow> steady (setup' t this)"
  by (simp add: setup'_def steady_render steady_animate_clock)

text \<open>
  C5.  From the state after set-up, whatever events follow in whatever order (timer
  callbacks, moves of a drag with the restart each one makes, resizes), every handler
  returns and the window holds at most one active timer; a further start of the animation
  leaves exactly the new timer active, and so does a second start right after it.
\<close>

theorem at_most_one_timer:
  "\<exists>this'. run src es (setup' t (new_fields now w h cw ch)) = Some this'
     \<and> card (window_timers this') \<le> 1
     \<and> window_timers (animate_clock this') = {window_next_handle this'}
     \<and> window_timers (animate_clock (animate_clock this')) = {window_next_handle this' + 1}
     \<and> card (window_timers (animate_clock (animate_clock this'))) = 1"
proof -
  obtain this' where ran: "run src es (setup' t (new_fields now w h cw ch)) = Some this'"
    and "steady this'"
    using steady_run [OF steady_setup [OF steady_new_fields]] by blast
  then have one: "one_timer this'"
    by (simp add: steady_def)
  have again: "window_timers (animate_clock (animate_clock this')) = {window_next_handle this' + 1}"
    using animate_clock_timers [OF one_timer_animate_clock [OF one]]
    by (simp add: animate_clock_eq)
  show ?thesis
    using ran one_timer_card [OF one] animate_clock_timers [OF one] again by simp
qed

section \<open>The invariant of the remaining time\<close>

lemma is_finite_iff: "is_finite n = (\<exists>r. n = Fin r)"
  by (cases n) simp_all

lemma is_position_iff: "is_position p = (\<exists>r. p = Some (Fin r))"
  by (cases p) (simp_all add: is_finite_iff)

lemma nonneg_iff: "nonneg n = (\<exists>r. n = Fin r \<and> 0 \<le> r)"
  by (cases n) simp_all

lemma pointer_angle_finite:
  assumes "positioned event"
    and "is_finite (coord_x (center this))" and "is_finite (coord_y (center this))"
  shows "\<exists>a. pointer_angle event this = Fin a"
proof -
  obtain px py l t cx cy where ev: "pageX event = Some (Fin px)" "pageY event = Some (Fin py)"
      "rect_left event = Fin l" "rect_top event = Fin t"
    and c: "coord_x (center this) = Fin cx" "coord_y (center this) = Fin cy"
    using assms by (auto simp: positioned_def is_position_iff is_finite_iff)
  show ?thesis
    by (simp add: pointer_angle_def Let_def translate_def ev c Math_PI_def)
qed

lemma sound_set_remaining_seconds:
  assumes "sound this"
  shows "\<exists>this'. set_remaining_seconds (Fin s) this = Some this' \<and> sound this'"
  using assms
  by (simp add: set_remaining_seconds_Fin sound_def in_sync_def normalized_nonneg)

lemma center_resized:
  "is_finite (coord_x (center this)) \<Longrightarrow> is_finite (coord_x (center (resized this)))"
  "is_finite (coord_y (center this)) \<Longrightarrow> is_finite (coord_y (center (resized this)))"
  by (simp_all add: resized_eq)

lemma sound_render: "sound this \<Longrightarrow> sound (render t this)"
  by (simp add: sound_def in_sync_def render_kept render_geometry center_resized ms_def)

lemma sound_animate_clock: "sound (animate_clock this) = sound this"
  by (simp add: sound_def in_sync_def animate_clock_eq)

lemma sound_clearTimeout: "sound (clearTimeout h this) = sound this"
  by (cases h) (simp_all add: sound_def in_sync_def clearTimeout_def)

lemma sound_setup_resolution: "sound this \<Longrightarrow> sound (setup_resolution this)"
  by (simp add: sound_def in_sync_def setup_resolution_def Let_def emit_def num_def)

lemma sound_secs:
  assumes "sound this"
  shows "\<exists>d. js_sub (remaining_seconds this) (secs_since now this) = Fin d"
proof -
  obtain r p where "remaining_seconds this = Fin r" and "prev_render_ms this = Fin p"
    using assms by (auto simp: sound_def nonneg_iff is_finite_iff)
  then show ?thesis
    by (simp add: secs_since_def ms_def)
qed

lemma sound_interval_callback:
  assumes "sound this"
  shows "\<exists>this'. interval_callback now t this = Some this' \<and> sound this'"
proof -
  obtain d where d: "js_sub (remaining_seconds this) (secs_since now this) = Fin d"
    using sound_secs [OF assms] by blast
  have "sound (render t this)" and "sound (clearTimeout (animation_timer this) (render t this))"
    using assms by (simp_all add: sound_render sound_clearTimeout)
  then show ?thesis
    by (simp add: interval_callback_eq d sound_set_remaining_seconds)
qed

lemma sound_interval_callback_part_000:
  assumes "sound this"
  shows "\<exists>this'. interval_callback_part_000 now t t2 this = Some this' \<and> sound this'"
proof -
  obtain d where d: "js_sub (remaining_seconds this) (secs_since now this) = Fin d"
    using sound_secs [OF assms] by blast
  have r: "sound (render t this)"
    and "sound (clearTimeout (animation_timer this) (render t this))"
    using assms by (simp_all add: sound_render sound_clearTimeout)
  then obtain z where z: "set_remaining_seconds (Fin 0)
      (clearTimeout (animation_timer this) (render t this)) = Some z" and "sound z"
    using sound_set_remaining_seconds by blast
  then have "sound (render t2 z)"
    by (simp add: sound_render)
  then show ?thesis
    using r z by (simp add: interval_callback_part_000_eq d sound_set_remaining_seconds)
qed

lemma sound_mousemove_handler:
  assumes "sound this" and "positioned event"
  shows "\<exists>this'. mousemove_handler event t this = Some this' \<and> sound this'"
proof -
  obtain a where a: "pointer_angle event this = Fin a"
    using pointer_angle_finite [OF assms(2)] assms(1) by (auto simp: sound_def)
  show ?thesis
  proof (cases "drag_starting_angle this = None \<or> drag_starting_remaining_seconds this = None")
    case True
    have "sound (this\<lparr>drag_starting_angle := Some (pointer_angle event this),
        drag_starting_remaining_seconds := Some (remaining_seconds this)\<rparr>)"
      using assms(1) by (auto simp: sound_def in_sync_def a nonneg_iff)
    then show ?thesis
      by (simp add: mousemove_handler_first [OF True] sound_render sound_animate_clock)
  next
    case False
    then obtain a0 r0 where o: "drag_starting_angle this = Some (Fin a0)"
        "drag_starting_remaining_seconds this = Some (Fin r0)"
      using assms(1) by (auto simp: sound_def is_finite_iff)
    obtain z where "set_remaining_seconds
        (js_add (Fin r0) (radians_to_seconds (js_sub (Fin a0) (Fin a)))) this = Some z"
      and "sound z"
      using sound_set_remaining_seconds [OF assms(1)] by (auto simp: radians_to_seconds_Fin)
    then show ?thesis
      by (simp add: mousemove_handler_drag [OF o] a sound_render sound_animate_clock)
  qed
qed

lemma sound_dispatch:
  assumes "sound this" and "well_formed e"
  shows "\<exists>this'. dispatch src e this = Some this' \<and> sound this'"
proof (cases e)
  case (Mousemove event t)
  then show ?thesis
    using assms sound_mousemove_handler [OF assms(1), of event t] by simp
next
  case (Touchmove touches t)
  show ?thesis
  proof (cases touches)
    case Nil
    then show ?thesis
      using Touchmove assms(1) by simp
  next
    case (Cons event rest)
    then have "positioned event"
      using Touchmove assms(2) by simp
    then show ?thesis
      using Touchmove Cons assms(1) sound_mousemove_handler [OF assms(1), of event t] by simp
  qed
next
  case (Resize cw ch)
  have "sound (this\<lparr>clientWidth := cw, clientHeight := ch\<rparr>)"
    using assms(1) by (simp add: sound_def in_sync_def)
  then show ?thesis
    using Resize by (simp add: sound_setup_resolution)
next
  case (Interval h now t t2)
  then show ?thesis
    using assms(1) sound_interval_callback [OF assms(1)]
      sound_interval_callback_part_000 [OF assms(1)]
    by (cases src) simp_all
qed (use assms(1) in \<open>simp_all add: sound_def in_sync_def\<close>)

lemma sound_run:
  "sound this \<Longrightarrow> list_all well_formed es \<Longrightarrow> \<exists>this'. run src es this = Some this' \<and> sound this'"
proof (induction es arbitrary: this)
  case Nil
  then show ?case by simp
next
  case (Cons e es)
  obtain this1 where "dispatch src e this = Some this1" and "sound this1"
    using sound_dispatch [of this e] Cons.prems by auto
  then show ?case
    using Cons.IH [of this1] Cons.prems by simp
qed

lemma sound_new_fields: "sound (new_fields now w h cw ch)"
  by (simp add: sound_def in_sync_def new_fields_def ms_def)

lemma sound_setup: "sound this \<Longrightarrow> sound (setup' t this)"
  by (simp add: setup'_def sound_render sound_animate_clock)

text \<open>
  C8, as the code has it.  After the constructor's assignments the remaining time is not
  negative and the angle is \<open>seconds_to_radians\<close> of it; every call of
  \<open>set_remaining_seconds\<close> on doubles with a finite argument from \<open>- 2 ^ 53\<close> upwards
  returns and leaves both so; and from the state after set-up every sequence of events
  whose moves carry a finite position (timer callbacks that decrement, moves that adjust,
  in any order, for both source files) is handled to the end and leaves both so.
\<close>

theorem remaining_seconds_invariant:
  assumes "list_all well_formed es"
  shows "nonneg (remaining_seconds (new_fields now w h cw ch))
    \<and> in_sync (new_fields now w h cw ch)
    \<and> (- (2 ^ 53) \<le> s \<longrightarrow>
        (\<exists>this'. set_remaining_seconds_double (Fin s) this = Some this'
           \<and> nonneg (remaining_seconds this')
           \<and> time_radians this' = seconds_to_radians_double (remaining_seconds this')))
    \<and> (\<exists>this'. run src es (setup' t (new_fields now w h cw ch)) = Some this'
         \<and> nonneg (remaining_seconds this') \<and> in_sync this')"
proof -
  have start: "sound (new_fields now w h cw ch)"
    by (rule sound_new_fields)
  have call: "\<exists>this'. set_remaining_seconds_double (Fin s) this = Some this'
      \<and> nonneg (remaining_seconds this')
      \<and> time_radians this' = seconds_to_radians_double (remaining_seconds this')"
    if bound: "- (2 ^ 53) \<le> s"
  proof -
    obtain r where "add_hours_double (Fin s) = Some (Fin r)" and "0 \<le> r"
      using add_hours_double_returns [OF bound] by blast
    then show ?thesis
      by (simp add: stored_double)
  qed
  obtain this' where "run src es (setup' t (new_fields now w h cw ch)) = Some this'"
    and "sound this'"
    using sound_run [OF sound_setup [OF start] assms] by blast
  then show ?thesis
    using start call by (auto simp: sound_def)
qed

text \<open>
  The theorem at a gesture of two moves with timer callbacks and a resize in between.
\<close>

theorem remaining_seconds_invariant_witness:
  "list_all well_formed drag_and_tick
   \<and> (\<exists>this'. run Timer_ts drag_and_tick (setup' 0 (new_fields 0 300 150 300 300)) = Some this'
         \<and> nonneg (remaining_seconds this') \<and> in_sync this')"
proof -
  have wf: "list_all well_formed drag_and_tick"
    by (simp add: drag_and_tick_def positioned_def)
  show ?thesis
    using wf remaining_seconds_invariant
      [OF wf, where now = 0 and w = 300 and h = 150 and cw = 300 and ch = 300
        and src = Timer_ts and t = 0]
    by blast
qed

section \<open>The drag\<close>









section \<open>A move without a position\<close>

lemma js_add_NaN: "js_add a NaN = NaN"
  by (cases a) simp_all

lemma js_sub_NaN: "js_sub a NaN = NaN" "js_sub NaN b = NaN"
  by (simp_all add: js_sub_def js_add_NaN)

lemma Math_atan2_NaN: "Math_atan2 b NaN = NaN"
  by (cases b) simp_all

lemma radians_to_seconds_NaN: "radians_to_seconds NaN = NaN"
  by (simp add: radians_to_seconds_def)

lemma seconds_to_radians_NaN: "seconds_to_radians NaN = NaN"
  by (simp add: seconds_to_radians_def)

lemma pointer_angle_NaN:
  assumes "pageX event = None \<or> pageY event = None"
  shows "pointer_angle event this = NaN"
  using assms
  by (auto simp: pointer_angle_def Let_def translate_def js_sub_NaN Math_atan2_NaN)

lemma mousemove_handler_NaN_drag:
  assumes "pointer_angle event this = NaN"
    and "drag_starting_angle this = Some a0"
    and "drag_starting_remaining_seconds this = Some r0"
  shows "map_option remaining_seconds (mousemove_handler event t this) = Some NaN
    \<and> map_option time_radians (mousemove_handler event t this) = Some NaN"
  by (simp add: mousemove_handler_drag [OF assms(2,3)] assms(1) js_sub_NaN js_add_NaN
      radians_to_seconds_NaN seconds_to_radians_NaN set_remaining_seconds_def add_hours_NaN
      render_kept animate_clock_eq)

lemma mousemove_handler_NaN_first:
  assumes "pointer_angle event this = NaN"
    and "drag_starting_angle this = None \<or> drag_starting_remaining_seconds this = None"
  shows "map_option remaining_seconds (mousemove_handler event t this) = Some (remaining_seconds this)
    \<and> map_option time_radians (mousemove_handler event t this) = Some (time_radians this)
    \<and> map_option drag_starting_angle (mousemove_handler event t this) = Some (Some NaN)"
  by (simp add: mousemove_handler_first [OF assms(2)] assms(1) render_kept animate_clock_eq)

text \<open>
  C9, as the code has it.  The handler does not check its event.  A move event without a
  page position gives the angle NaN.  As the first move of a gesture it leaves the
  remaining time and its angle as they are and records NaN as the origin angle of the
  drag; during a drag it stores NaN as the remaining time and as its angle.
\<close>

theorem move_without_position:
  assumes "pageX event = None \<or> pageY event = None"
  shows "pointer_angle event this = NaN
    \<and> (if drag_starting_angle this = None \<or> drag_starting_remaining_seconds this = None
       then map_option remaining_seconds (mousemove_handler event t this)
              = Some (remaining_seconds this)
          \<and> map_option time_radians (mousemove_handler event t this)
              = Some (time_radians this)
          \<and> map_option drag_starting_angle (mousemove_handler event t this) = Some (Some NaN)
       else map_option remaining_seconds (mousemove_handler event t this) = Some NaN
          \<and> map_option time_radians (mousemove_handler event t this) = Some NaN)"
proof -
  have angle: "pointer_angle event this = NaN"
    using assms by (rule pointer_angle_NaN)
  show ?thesis
  proof (cases "drag_starting_angle this = None \<or> drag_starting_remaining_seconds this = None")
    case True
    then show ?thesis
      using angle mousemove_handler_NaN_first [OF angle True, of t] by simp
  next
    case False
    then obtain a0 r0 where "drag_starting_angle this = Some a0"
      and "drag_starting_remaining_seconds this = Some r0"
      by auto
    then show ?thesis
      using angle False mousemove_handler_NaN_drag [OF angle, of a0 r0 t] by simp
  qed
qed

lemma mounted_fields:
  "remaining_seconds mounted = Fin 120"
  "time_radians mounted = seconds_to_radians (Fin 120)"
  "prev_render_ms mounted = ms 0"
  "animation_timer mounted = Some 1"
  "window_timers mounted = {1}"
  "drag_starting_angle mounted = None"
  "drag_starting_remaining_seconds mounted = None"
  by (simp_all add: mounted_def setup'_def animate_clock_eq render_kept new_fields_def)

text \<open>
  The theorem at the timer after set-up, for the first move of a gesture and for a move
  during a drag.
\<close>

theorem move_without_position_witness:
  "pageX no_position = None
   \<and> map_option remaining_seconds (mousemove_handler no_position 1 mounted) = Some (Fin 120)
   \<and> map_option drag_starting_angle (mousemove_handler no_position 1 mounted) = Some (Some NaN)
   \<and> map_option remaining_seconds
        (mousemove_handler no_position 2
          (mounted\<lparr>drag_starting_angle := Some (Fin pi),
                   drag_starting_remaining_seconds := Some (Fin 120)\<rparr>)) = Some NaN
   \<and> map_option time_radians
        (mousemove_handler no_position 2
          (mounted\<lparr>drag_starting_angle := Some (Fin pi),
                   drag_starting_remaining_seconds := Some (Fin 120)\<rparr>)) = Some NaN"
proof -
  have none: "pageX no_position = None \<or> pageY no_position = None"
    by (simp add: no_position_def)
  show ?thesis
    using move_without_position [OF none, of mounted 1]
      move_without_position [OF none,
        of "mounted\<lparr>drag_starting_angle := Some (Fin pi),
                     drag_starting_remaining_seconds := Some (Fin 120)\<rparr>" 2]
    by (simp add: mounted_fields no_position_def)
qed

text \<open>
  C9 as stated fails: after a press and a move with a position, a move without a position
  turns the remaining time of 120 seconds and its angle into NaN.
\<close>

theorem move_without_position_poisons:
  "remaining_seconds mounted = Fin 120
   \<and> map_option remaining_seconds
        (run Timer_ts [Mousedown, Mousemove second_move 1, Mousemove no_position 2] mounted)
       = Some NaN
   \<and> map_option time_radians
        (run Timer_ts [Mousedown, Mousemove second_move 1, Mousemove no_position 2] mounted)
       = Some NaN"
proof -
  define pressed where "pressed = mounted\<lparr>mousemove_attached := True\<rparr>"
  define held where "held = animate_clock (render 1
      (pressed\<lparr>drag_starting_angle := Some (pointer_angle second_move pressed),
               drag_starting_remaining_seconds := Some (remaining_seconds pressed)\<rparr>))"
  have first: "mousemove_handler second_move 1 pressed = Some held"
    unfolding held_def by (rule mousemove_handler_first) (simp add: pressed_def mounted_fields)
  have held: "mousemove_attached held"
    "drag_starting_angle held = Some (pointer_angle second_move pressed)"
    "drag_starting_remaining_seconds held = Some (remaining_seconds pressed)"
    by (simp_all add: held_def animate_clock_eq render_kept pressed_def)
  have angle: "pointer_angle no_position held = NaN"
    by (rule pointer_angle_NaN) (simp add: no_position_def)
  have ran: "run Timer_ts [Mousedown, Mousemove second_move 1, Mousemove no_position 2] mounted
      = mousemove_handler no_position 2 held"
    using first held(1) by (simp add: pressed_def split: option.splits)
  show ?thesis
    unfolding ran using mousemove_handler_NaN_drag [OF angle held(2,3), of 2]
    by (simp add: mounted_fields)
qed

text \<open>
  C8 as stated fails: in \<open>src/unnamed/part_000\<close>, after a touch and a move with a
  position, a move without a position replaces the remaining time of 120 seconds by NaN,
  which is not a number greater than or equal to zero.
\<close>

theorem remaining_seconds_lost_by_touch:
  "nonneg (remaining_seconds mounted)
   \<and> map_option remaining_seconds
        (run Part_000 [Touchstart, Touchmove [second_move] 1, Touchmove [no_position] 2] mounted)
       = Some NaN
   \<and> \<not> nonneg NaN"
proof -
  define touched where "touched = mounted\<lparr>touchmove_attached := True\<rparr>"
  define held where "held = animate_clock (render 1
      (touched\<lparr>drag_starting_angle := Some (pointer_angle second_move touched),
               drag_starting_remaining_seconds := Some (remaining_seconds touched)\<rparr>))"
  have first: "mousemove_handler second_move 1 touched = Some held"
    unfolding held_def by (rule mousemove_handler_first) (simp add: touched_def mounted_fields)
  have held: "touchmove_attached held"
    "drag_starting_angle held = Some (pointer_angle second_move touched)"
    "drag_starting_remaining_seconds held = Some (remaining_seconds touched)"
    by (simp_all add: held_def animate_clock_eq render_kept touched_def)
  have angle: "pointer_angle no_position held = NaN"
    by (rule pointer_angle_NaN) (simp add: no_position_def)
  have ran: "run Part_000 [Touchstart, Touchmove [second_move] 1, Touchmove [no_position] 2]
      mounted = mousemove_handler no_position 2 held"
    using first held(1) by (simp add: touched_def split: option.splits)
  show ?thesis
    unfolding ran using mousemove_handler_NaN_drag [OF angle held(2,3), of 2]
    by (simp add: mounted_fields)
qed

section \<open>The callback at the end of the countdown\<close>

lemma expired_mounted: "expired 120200 mounted"
  by (simp add: expired_def secs_since_def mounted_fields ms_def)

text \<open>
  C2 at the timer after set-up, with a callback that runs 120.2 seconds after the last
  render.  The callback of \<open>src/src/timer.ts\<close> removes the timer and stores zero seconds,
  but the canvas has received the calls of the one render before the test and no more:
  the zero state is never drawn.  The callback of \<open>src/unnamed/part_000\<close> is the same
  followed by one more render.
\<close>

theorem interval_callback_no_last_render:
  "expired 120200 mounted
   \<and> map_option remaining_seconds (interval_callback 120200 120200 mounted) = Some (Fin 0)
   \<and> map_option window_timers (interval_callback 120200 120200 mounted) = Some {}
   \<and> map_option ctx (interval_callback 120200 120200 mounted)
       = Some (ctx (render 120200 mounted))
   \<and> interval_callback_part_000 120200 120200 120201 mounted
       = map_option (render 120201) (interval_callback 120200 120200 mounted)
   \<and> map_option ctx (interval_callback_part_000 120200 120200 120201 mounted)
       \<noteq> Some (ctx (render 120200 mounted))"
proof -
  define cleared where "cleared = clearTimeout (animation_timer mounted) (render 120200 mounted)"
  define zero where
    "zero = cleared\<lparr>remaining_seconds := Fin 0, time_radians := seconds_to_radians (Fin 0)\<rparr>"
  have call: "interval_callback 120200 120200 mounted = Some zero"
    by (simp add: interval_callback_eq expired_mounted set_remaining_seconds_Fin normalized_def
        cleared_def zero_def)
  have zero: "remaining_seconds zero = Fin 0" "window_timers zero = {}"
    "ctx zero = ctx (render 120200 mounted)"
    by (simp_all add: zero_def cleared_def clearTimeout_def mounted_fields render_kept)
  have sibling: "interval_callback_part_000 120200 120200 120201 mounted
      = map_option (render 120201) (interval_callback 120200 120200 mounted)"
    by (simp add: interval_callback_part_000_eq interval_callback_eq expired_mounted)
  have "ctx (render 120201 zero) \<noteq> ctx zero"
    by (simp add: render_geometry resized_eq emit_def frame_ops_def)
  then have more: "ctx (render 120201 zero) \<noteq> ctx (render 120200 mounted)"
    by (simp add: zero)
  have c1: "map_option remaining_seconds (interval_callback 120200 120200 mounted) = Some (Fin 0)"
    and c2: "map_option window_timers (interval_callback 120200 120200 mounted) = Some {}"
    and c3: "map_option ctx (interval_callback 120200 120200 mounted)
      = Some (ctx (render 120200 mounted))"
    by (simp_all add: call zero)
  have c4: "map_option ctx (interval_callback_part_000 120200 120200 120201 mounted)
      \<noteq> Some (ctx (render 120200 mounted))"
    using more by (simp add: sibling call)
  show ?thesis
    using expired_mounted c1 c2 c3 sibling c4 by blast
qed

end
